theory Spec2Isabelle
  imports Main "HOL-Library.Word"
begin

section \<open>Tokens and locations (include/ast.h)\<close>

datatype TokenType =
    UNKNOWN
  | IDENTIFIER | STRING_LITERAL | INT_LITERAL | FLOAT_LITERAL
  | LET | IF | THEN | ELSE
  | ARROW | PLUS | MINUS | MULTIPLY | DIVIDE | EQUALS
  | LESS_THAN | GREATER_THAN | LESS_EQUAL | GREATER_EQUAL | EQUAL_EQUAL | NOT_EQUAL
  | LPAREN | RPAREN | COLON | COMMA
  | TYPE_INT | TYPE_FLOAT | TYPE_CHAR | TYPE_STR | TYPE_FUNC
  | NEWLINE | BACKSLASH | COMMENT | EOF_TOKEN

text \<open>\<^verbatim>\<open>struct Location\<close>: \<^verbatim>\<open>size_t\<close> line and column, and the file name. The counters
  are natural numbers: they only grow by one per consumed byte, and every subtraction
  the lexer performs on them is written out below where it happens.\<close>

record Location =
  loc_line :: nat
  loc_column :: nat
  loc_filename :: string

record Token =
  tok_type :: TokenType
  tok_value :: string
  tok_location :: Location

definition mkLocation :: "nat \<Rightarrow> nat \<Rightarrow> string \<Rightarrow> Location" where
  "mkLocation l c f = \<lparr>loc_line = l, loc_column = c, loc_filename = f\<rparr>"

definition mkToken :: "TokenType \<Rightarrow> string \<Rightarrow> Location \<Rightarrow> Token" where
  "mkToken t v loc = \<lparr>tok_type = t, tok_value = v, tok_location = loc\<rparr>"

section \<open>The lexer (src/lexer.cpp)\<close>

text \<open>The private members of \<^verbatim>\<open>class Lexer\<close>; \<^verbatim>\<open>position\<close>, \<^verbatim>\<open>line\<close> and
  \<^verbatim>\<open>column\<close> start at 0, 1 and 1.\<close>

record Lexer =
  input :: string
  position :: nat
  line :: nat
  column :: nat
  filename :: string

definition newLexer :: "string \<Rightarrow> string \<Rightarrow> Lexer" where
  "newLexer inp fname = \<lparr>input = inp, position = 0, line = 1, column = 1, filename = fname\<rparr>"

text \<open>Character classes of \<^verbatim>\<open><cctype>\<close> in the "C" locale, on bytes.\<close>

definition isalpha :: "char \<Rightarrow> bool" where
  "isalpha c = (let n = (of_char c :: nat) in (65 \<le> n \<and> n \<le> 90) \<or> (97 \<le> n \<and> n \<le> 122))"

definition isdigit :: "char \<Rightarrow> bool" where
  "isdigit c = (let n = (of_char c :: nat) in 48 \<le> n \<and> n \<le> 57)"

definition isalnum :: "char \<Rightarrow> bool" where
  "isalnum c = (isalpha c \<or> isdigit c)"

abbreviation NUL :: char where "NUL \<equiv> CHR 0x00"
abbreviation TAB :: char where "TAB \<equiv> CHR 0x09"
abbreviation LF :: char where "LF \<equiv> CHR 0x0A"
abbreviation CR :: char where "CR \<equiv> CHR 0x0D"
abbreviation SPACE :: char where "SPACE \<equiv> CHR 0x20"
abbreviation DQUOTE :: char where "DQUOTE \<equiv> CHR 0x22"
abbreviation BSLASH :: char where "BSLASH \<equiv> CHR 0x5C"

definition keywordTable :: "(string \<times> TokenType) list" where
  "keywordTable =
    [(''let'', LET), (''if'', IF), (''then'', THEN), (''else'', ELSE),
     (''int'', TYPE_INT), (''float'', TYPE_FLOAT), (''char'', TYPE_CHAR),
     (''str'', TYPE_STR), (''func'', TYPE_FUNC)]"

definition isAtEnd :: "Lexer \<Rightarrow> bool" where
  "isAtEnd lx = (position lx \<ge> length (input lx))"

definition peek :: "Lexer \<Rightarrow> nat \<Rightarrow> char" where
  "peek lx offset =
    (if position lx + offset \<ge> length (input lx) then NUL
     else input lx ! (position lx + offset))"

definition advance :: "Lexer \<Rightarrow> char \<times> Lexer" where
  "advance lx =
    (if isAtEnd lx then (NUL, lx)
     else
       let c = input lx ! position lx;
           lx1 = lx\<lparr>position := position lx + 1, column := column lx + 1\<rparr>
       in if c = LF then (c, lx1\<lparr>line := line lx1 + 1, column := 1\<rparr>) else (c, lx1))"

definition match :: "char \<Rightarrow> Lexer \<Rightarrow> bool \<times> Lexer" where
  "match expected lx =
    (if isAtEnd lx \<or> peek lx 0 \<noteq> expected then (False, lx)
     else (True, snd (advance lx)))"

definition remaining :: "Lexer \<Rightarrow> nat" where
  "remaining lx = length (input lx) - position lx"

function skipWhitespace :: "Lexer \<Rightarrow> Lexer" where
  "skipWhitespace lx =
    (let c = peek lx 0 in
     if c = SPACE \<or> c = TAB \<or> c = CR then skipWhitespace (snd (advance lx))
     else if c = LF then
       (let lx1 = snd (advance lx) in skipWhitespace (lx1\<lparr>line := line lx1 + 1, column := 1\<rparr>))
     else lx)"
  by pat_completeness auto
termination
  by (relation "measure remaining")
     (auto simp: remaining_def peek_def advance_def isAtEnd_def Let_def split: if_splits)

declare skipWhitespace.simps [simp del]

definition makeToken :: "TokenType \<Rightarrow> string \<Rightarrow> Lexer \<Rightarrow> Token" where
  "makeToken t v lx = mkToken t v (mkLocation (line lx) (column lx - length v) (filename lx))"

definition errorToken :: "string \<Rightarrow> Lexer \<Rightarrow> Token" where
  "errorToken message lx = mkToken UNKNOWN message (mkLocation (line lx) (column lx) (filename lx))"

text \<open>\<^verbatim>\<open>input.substr(start, n)\<close>, for \<open>start\<close> within the buffer.\<close>

definition substr :: "string \<Rightarrow> nat \<Rightarrow> nat \<Rightarrow> string" where
  "substr s start n = take n (drop start s)"

function identifierLoop :: "Lexer \<Rightarrow> Lexer" where
  "identifierLoop lx =
    (if isalnum (peek lx 0) \<or> peek lx 0 = CHR ''_'' then identifierLoop (snd (advance lx))
     else lx)"
  by pat_completeness auto
termination
  by (relation "measure remaining")
     (auto simp: remaining_def peek_def advance_def isAtEnd_def Let_def isalnum_def
        isalpha_def isdigit_def split: if_splits)

declare identifierLoop.simps [simp del]

definition handleIdentifier :: "Lexer \<Rightarrow> Token \<times> Lexer" where
  "handleIdentifier lx =
    (let start = position lx;
         startColumn = column lx;
         lx1 = snd (advance lx);
         lx2 = identifierLoop lx1;
         text = substr (input lx2) start (position lx2 - start);
         ty = (case map_of keywordTable text of Some k \<Rightarrow> k | None \<Rightarrow> IDENTIFIER)
     in (mkToken ty text (mkLocation (line lx2) startColumn (filename lx2)), lx2))"

function digitLoop :: "Lexer \<Rightarrow> Lexer" where
  "digitLoop lx = (if isdigit (peek lx 0) then digitLoop (snd (advance lx)) else lx)"
  by pat_completeness auto
termination
  by (relation "measure remaining")
     (auto simp: remaining_def peek_def advance_def isAtEnd_def Let_def isdigit_def
        split: if_splits)

declare digitLoop.simps [simp del]

definition handleNumber :: "Lexer \<Rightarrow> Token \<times> Lexer" where
  "handleNumber lx =
    (let start = position lx;
         startColumn = column lx;
         lx1 = digitLoop lx;
         (isFloat, lx2) =
            (if peek lx1 0 = CHR ''.'' \<and> isdigit (peek lx1 1)
             then (True, digitLoop (snd (advance lx1)))
             else (False, lx1));
         numberStr = substr (input lx2) start (position lx2 - start);
         loc = mkLocation (line lx2) startColumn (filename lx2)
     in if isFloat then (mkToken FLOAT_LITERAL numberStr loc, lx2)
        else (mkToken INT_LITERAL numberStr loc, lx2))"

text \<open>The \<^verbatim>\<open>switch (peek())\<close> after a backslash inside a string literal.\<close>

definition escapeChar :: "char \<Rightarrow> char" where
  "escapeChar c =
    (if c = DQUOTE then DQUOTE
     else if c = BSLASH then BSLASH
     else if c = CHR ''n'' then LF
     else if c = CHR ''t'' then TAB
     else if c = CHR ''r'' then CR
     else c)"

function stringLoop :: "Lexer \<Rightarrow> string \<Rightarrow> Lexer \<times> string" where
  "stringLoop lx val =
    (if peek lx 0 \<noteq> DQUOTE \<and> \<not> isAtEnd lx then
       (let lx1 = (if peek lx 0 = LF then lx\<lparr>line := line lx + 1, column := 1\<rparr> else lx) in
        if peek lx1 0 = BSLASH then
          (let lx2 = snd (advance lx1);
               ch = escapeChar (peek lx2 0);
               lx3 = snd (advance lx2)
           in stringLoop lx3 (val @ [ch]))
        else
          (let (c, lx2) = advance lx1 in stringLoop lx2 (val @ [c])))
     else (lx, val))"
  by pat_completeness auto
termination
  by (relation "measure (\<lambda>(lx, val). remaining lx)")
     (auto simp: remaining_def peek_def advance_def isAtEnd_def Let_def split: if_splits)

declare stringLoop.simps [simp del]

definition handleString :: "Lexer \<Rightarrow> Token \<times> Lexer" where
  "handleString lx =
    (let startColumn = column lx - 1;
         (lx1, val) = stringLoop lx []
     in if isAtEnd lx1 then (errorToken ''Unterminated string'' lx1, lx1)
        else
          (let lx2 = snd (advance lx1)
           in (mkToken STRING_LITERAL val (mkLocation (line lx2) startColumn (filename lx2)), lx2)))"

function commentLoop :: "Lexer \<Rightarrow> string \<Rightarrow> Lexer \<times> string" where
  "commentLoop lx comment =
    (if peek lx 0 \<noteq> LF \<and> \<not> isAtEnd lx then
       (let (c, lx1) = advance lx in commentLoop lx1 (comment @ [c]))
     else (lx, comment))"
  by pat_completeness auto
termination
  by (relation "measure (\<lambda>(lx, val). remaining lx)")
     (auto simp: remaining_def peek_def advance_def isAtEnd_def Let_def split: if_splits)

declare commentLoop.simps [simp del]

definition handleComment :: "Lexer \<Rightarrow> Token \<times> Lexer" where
  "handleComment lx =
    (let startColumn = column lx - 1;
         (lx1, comment) = commentLoop lx ''#''
     in (mkToken COMMENT comment (mkLocation (line lx1) startColumn (filename lx1)), lx1))"

text \<open>\<^verbatim>\<open>Lexer::nextToken\<close>. The two-character operators try \<^verbatim>\<open>match\<close> first; the
  \<^verbatim>\<open>switch\<close> is written as a chain of tests in the order of its \<^verbatim>\<open>case\<close> labels.\<close>

definition matchOr :: "char \<Rightarrow> TokenType \<Rightarrow> string \<Rightarrow> (Lexer \<Rightarrow> Token) \<Rightarrow> Lexer \<Rightarrow> Token \<times> Lexer" where
  "matchOr expected t2 v2 otherwise lx =
    (let (m, lx1) = match expected lx in
     if m then (makeToken t2 v2 lx1, lx1) else (otherwise lx1, lx1))"

definition nextToken :: "Lexer \<Rightarrow> Token \<times> Lexer" where
  "nextToken lx0 =
    (let lx = skipWhitespace lx0 in
     if isAtEnd lx then (makeToken EOF_TOKEN [] lx, lx)
     else
       let (c, lx1) = advance lx in
       if isalpha c \<or> c = CHR ''_'' then
         handleIdentifier (lx1\<lparr>position := position lx1 - 1, column := column lx1 - 1\<rparr>)
       else if isdigit c then
         handleNumber (lx1\<lparr>position := position lx1 - 1, column := column lx1 - 1\<rparr>)
       else if c = DQUOTE then handleString lx1
       else if c = CHR ''#'' then handleComment lx1
       else if c = CHR ''('' then (makeToken LPAREN ''('' lx1, lx1)
       else if c = CHR '')'' then (makeToken RPAREN '')'' lx1, lx1)
       else if c = CHR '','' then (makeToken COMMA '','' lx1, lx1)
       else if c = CHR '':'' then (makeToken COLON '':'' lx1, lx1)
       else if c = CHR ''+'' then (makeToken PLUS ''+'' lx1, lx1)
       else if c = CHR ''-'' then matchOr (CHR ''>'') ARROW ''->'' (makeToken MINUS ''-'') lx1
       else if c = CHR ''*'' then (makeToken MULTIPLY ''*'' lx1, lx1)
       else if c = CHR ''/'' then (makeToken DIVIDE ''/'' lx1, lx1)
       else if c = CHR ''='' then matchOr (CHR ''='') EQUAL_EQUAL ''=='' (makeToken EQUALS ''='') lx1
       else if c = BSLASH then (makeToken BACKSLASH [BSLASH] lx1, lx1)
       else if c = LF then (makeToken NEWLINE [LF] lx1, lx1)
       else if c = CHR ''<'' then matchOr (CHR ''='') LESS_EQUAL ''<='' (makeToken LESS_THAN ''<'') lx1
       else if c = CHR ''>'' then
         matchOr (CHR ''='') GREATER_EQUAL ''>='' (makeToken GREATER_THAN ''>'') lx1
       else if c = CHR ''!'' then
         matchOr (CHR ''='') NOT_EQUAL ''!='' (errorToken (''Unexpected character '' @ [CHR 0x27, CHR ''!'', CHR 0x27])) lx1
       else (errorToken ''Unexpected character'' lx1, lx1))"

subsection \<open>Progress of the scanner\<close>

text \<open>Every helper leaves the buffer alone and never moves \<^verbatim>\<open>position\<close> backwards;
  a token other than the end-of-input sentinel consumes at least one byte. This is what makes
  the loop of \<^verbatim>\<open>Lexer::tokenize\<close> terminate.\<close>

lemma advance_input [simp]: "input (snd (advance lx)) = input lx"
  by (simp add: advance_def Let_def)

lemma advance_remaining_le: "remaining (snd (advance lx)) \<le> remaining lx"
  by (auto simp add: advance_def Let_def remaining_def)

lemma advance_remaining_less:
  "\<not> isAtEnd lx \<Longrightarrow> remaining (snd (advance lx)) < remaining lx"
  by (auto simp add: advance_def Let_def remaining_def isAtEnd_def)

lemma remaining_upd [simp]:
  "remaining (l\<lparr>line := a, column := b\<rparr>) = remaining l"
  "remaining (l\<lparr>line := a\<rparr>) = remaining l"
  "remaining (l\<lparr>column := b\<rparr>) = remaining l"
  by (simp_all add: remaining_def)

lemma advance_fst: "\<not> isAtEnd lx \<Longrightarrow> fst (advance lx) = peek lx 0"
  by (simp add: advance_def Let_def peek_def isAtEnd_def)

lemma advance_backup:
  "\<not> isAtEnd lx \<Longrightarrow> peek lx 0 \<noteq> LF \<Longrightarrow>
   (snd (advance lx))\<lparr>position := position (snd (advance lx)) - 1,
                       column := column (snd (advance lx)) - 1\<rparr> = lx"
  by (simp add: advance_def Let_def peek_def isAtEnd_def)

lemma peek_not_at_end: "peek lx 0 \<noteq> NUL \<Longrightarrow> \<not> isAtEnd lx"
  by (simp add: peek_def isAtEnd_def split: if_splits)

lemma skipWhitespace_remaining: "remaining (skipWhitespace lx) \<le> remaining lx"
proof (induction lx rule: skipWhitespace.induct)
  case (1 lx)
  note a = advance_remaining_le [of lx]
  show ?case
  proof (cases "peek lx 0 = SPACE \<or> peek lx 0 = TAB \<or> peek lx 0 = CR")
    case True
    then have "skipWhitespace lx = skipWhitespace (snd (advance lx))"
      by (subst skipWhitespace.simps) (simp add: Let_def)
    moreover have "remaining (skipWhitespace (snd (advance lx))) \<le> remaining (snd (advance lx))"
      using 1(1) [OF refl True] .
    ultimately show ?thesis using a by simp
  next
    case False
    show ?thesis
    proof (cases "peek lx 0 = LF")
      case True
      let ?l = "(snd (advance lx))\<lparr>line := line (snd (advance lx)) + 1, column := 1\<rparr>"
      have "skipWhitespace lx = skipWhitespace ?l"
        using False True by (subst skipWhitespace.simps) (simp add: Let_def)
      moreover have "remaining (skipWhitespace ?l) \<le> remaining ?l"
        using 1(2) [OF refl False True refl] .
      ultimately show ?thesis using a by simp
    next
      case F2: False
      have "skipWhitespace lx = lx"
        using False F2 by (subst skipWhitespace.simps) (simp add: Let_def)
      then show ?thesis by simp
    qed
  qed
qed

lemma skipWhitespace_peek:
  "peek (skipWhitespace lx) 0 \<noteq> SPACE \<and> peek (skipWhitespace lx) 0 \<noteq> TAB \<and>
   peek (skipWhitespace lx) 0 \<noteq> CR \<and> peek (skipWhitespace lx) 0 \<noteq> LF"
proof (induction lx rule: skipWhitespace.induct)
  case (1 lx)
  show ?case
  proof (cases "peek lx 0 = SPACE \<or> peek lx 0 = TAB \<or> peek lx 0 = CR")
    case True
    then have "skipWhitespace lx = skipWhitespace (snd (advance lx))"
      by (subst skipWhitespace.simps) (simp add: Let_def)
    then show ?thesis using 1(1) [OF refl True] by simp
  next
    case False
    show ?thesis
    proof (cases "peek lx 0 = LF")
      case True
      let ?l = "(snd (advance lx))\<lparr>line := line (snd (advance lx)) + 1, column := 1\<rparr>"
      have "skipWhitespace lx = skipWhitespace ?l"
        using False True by (subst skipWhitespace.simps) (simp add: Let_def)
      then show ?thesis using 1(2) [OF refl False True refl] by simp
    next
      case F2: False
      have "skipWhitespace lx = lx"
        using False F2 by (subst skipWhitespace.simps) (simp add: Let_def)
      then show ?thesis using False F2 by simp
    qed
  qed
qed

lemma identifierLoop_remaining: "remaining (identifierLoop lx) \<le> remaining lx"
proof (induction lx rule: identifierLoop.induct)
  case (1 lx)
  show ?case
  proof (cases "isalnum (peek lx 0) \<or> peek lx 0 = CHR ''_''")
    case True
    then have "identifierLoop lx = identifierLoop (snd (advance lx))"
      by (subst identifierLoop.simps) simp
    then show ?thesis using 1 [OF True] advance_remaining_le [of lx] by simp
  next
    case False
    then have "identifierLoop lx = lx" by (subst identifierLoop.simps) simp
    then show ?thesis by simp
  qed
qed

lemma digitLoop_remaining: "remaining (digitLoop lx) \<le> remaining lx"
proof (induction lx rule: digitLoop.induct)
  case (1 lx)
  show ?case
  proof (cases "isdigit (peek lx 0)")
    case True
    then have "digitLoop lx = digitLoop (snd (advance lx))"
      by (subst digitLoop.simps) simp
    then show ?thesis using 1 [OF True] advance_remaining_le [of lx] by simp
  next
    case False
    then have "digitLoop lx = lx" by (subst digitLoop.simps) simp
    then show ?thesis by simp
  qed
qed

lemma stringLoop_remaining: "remaining (fst (stringLoop lx v)) \<le> remaining lx"
proof (induction lx v rule: stringLoop.induct)
  case (1 lx val)
  let ?lx1 = "(if peek lx 0 = LF then lx\<lparr>line := line lx + 1, column := 1\<rparr> else lx)"
  have r1: "remaining ?lx1 = remaining lx" by simp
  show ?case
  proof (cases "peek lx 0 \<noteq> DQUOTE \<and> \<not> isAtEnd lx")
    case go: True
    show ?thesis
    proof (cases "peek ?lx1 0 = BSLASH")
      case True
      let ?lx2 = "snd (advance ?lx1)"
      let ?lx3 = "snd (advance ?lx2)"
      let ?ch = "escapeChar (peek ?lx2 0)"
      have eq: "stringLoop lx val = stringLoop ?lx3 (val @ [?ch])"
        using go True by (subst stringLoop.simps) (simp add: Let_def)
      have "remaining (fst (stringLoop ?lx3 (val @ [?ch]))) \<le> remaining ?lx3"
        using 1(1) [OF go refl True refl refl refl] by simp
      moreover have "remaining ?lx3 \<le> remaining ?lx1"
        using advance_remaining_le [of ?lx1] advance_remaining_le [of ?lx2] by linarith
      ultimately show ?thesis using eq r1 by simp
    next
      case False
      let ?c = "fst (advance ?lx1)"
      let ?lx2 = "snd (advance ?lx1)"
      have eq: "stringLoop lx val = stringLoop ?lx2 (val @ [?c])"
        using go False by (subst stringLoop.simps) (simp add: Let_def split_beta)
      have "remaining (fst (stringLoop ?lx2 (val @ [?c]))) \<le> remaining ?lx2"
        using 1(2) [OF go refl False, of "advance ?lx1" ?c ?lx2] by simp
      then show ?thesis using eq r1 advance_remaining_le [of ?lx1] by simp
    qed
  next
    case False
    then have "stringLoop lx val = (lx, val)" by (subst stringLoop.simps) auto
    then show ?thesis by simp
  qed
qed

lemma commentLoop_remaining: "remaining (fst (commentLoop lx v)) \<le> remaining lx"
proof (induction lx v rule: commentLoop.induct)
  case (1 lx comment)
  show ?case
  proof (cases "peek lx 0 \<noteq> LF \<and> \<not> isAtEnd lx")
    case True
    let ?c = "fst (advance lx)"
    let ?lx1 = "snd (advance lx)"
    have eq: "commentLoop lx comment = commentLoop ?lx1 (comment @ [?c])"
      using True by (subst commentLoop.simps) (simp add: split_beta)
    have "remaining (fst (commentLoop ?lx1 (comment @ [?c]))) \<le> remaining ?lx1"
      using 1 [OF True, of "advance lx" ?c ?lx1] by simp
    then show ?thesis using eq advance_remaining_le [of lx] by simp
  next
    case False
    then have "commentLoop lx comment = (lx, comment)" by (subst commentLoop.simps) auto
    then show ?thesis by simp
  qed
qed


lemma handleIdentifier_remaining:
  "\<not> isAtEnd lx \<Longrightarrow> remaining (snd (handleIdentifier lx)) < remaining lx"
  using identifierLoop_remaining [of "snd (advance lx)"] advance_remaining_less [of lx]
  by (simp add: handleIdentifier_def Let_def)

lemma handleNumber_remaining:
  assumes "isdigit (peek lx 0)"
  shows "remaining (snd (handleNumber lx)) < remaining lx"
proof -
  have ne: "\<not> isAtEnd lx"
    using assms by (auto simp: isdigit_def peek_def isAtEnd_def split: if_splits)
  have "digitLoop lx = digitLoop (snd (advance lx))"
    using assms by (subst digitLoop.simps) simp
  then have d: "remaining (digitLoop lx) < remaining lx"
    using digitLoop_remaining [of "snd (advance lx)"] advance_remaining_less [OF ne] by simp
  have "remaining (digitLoop (snd (advance (digitLoop lx)))) \<le> remaining (digitLoop lx)"
    using digitLoop_remaining [of "snd (advance (digitLoop lx))"]
      advance_remaining_le [of "digitLoop lx"] by linarith
  then show ?thesis using d
    by (simp add: handleNumber_def Let_def split_beta)
qed

lemma handleString_remaining: "remaining (snd (handleString lx)) \<le> remaining lx"
  using stringLoop_remaining [of lx "[]"] advance_remaining_le [of "fst (stringLoop lx [])"]
  by (simp add: handleString_def Let_def split_beta)

lemma handleComment_remaining: "remaining (snd (handleComment lx)) \<le> remaining lx"
  using commentLoop_remaining [of lx "''#''"]
  by (simp add: handleComment_def Let_def split_beta)

lemma matchOr_remaining: "remaining (snd (matchOr e t v ow lx)) \<le> remaining lx"
  using advance_remaining_le [of lx]
  by (simp add: matchOr_def match_def Let_def split_beta)

lemma nextToken_remaining_le: "remaining (snd (nextToken lx0)) \<le> remaining lx0"
  and nextToken_remaining_less:
    "tok_type (fst (nextToken lx0)) \<noteq> EOF_TOKEN \<Longrightarrow> remaining (snd (nextToken lx0)) < remaining lx0"
proof -
  let ?lx = "skipWhitespace lx0"
  let ?lx1 = "snd (advance ?lx)"
  let ?c = "fst (advance ?lx)"
  let ?bk = "?lx1\<lparr>position := position ?lx1 - 1, column := column ?lx1 - 1\<rparr>"
  have sk: "remaining ?lx \<le> remaining lx0" by (rule skipWhitespace_remaining)
  have main: "\<not> isAtEnd ?lx \<Longrightarrow> remaining (snd (nextToken lx0)) < remaining lx0"
  proof -
    assume ne: "\<not> isAtEnd ?lx"
    have c: "?c = peek ?lx 0" using ne by (rule advance_fst)
    have nlf: "peek ?lx 0 \<noteq> LF" using skipWhitespace_peek [of lx0] by simp
    have bk: "?bk = ?lx" using ne nlf by (rule advance_backup)
    have a: "remaining ?lx1 < remaining ?lx" using ne by (rule advance_remaining_less)
    have hi: "remaining (snd (handleIdentifier ?lx)) < remaining ?lx"
      using ne by (rule handleIdentifier_remaining)
    have hn: "isdigit ?c \<Longrightarrow> remaining (snd (handleNumber ?lx)) < remaining ?lx"
      using c handleNumber_remaining [of ?lx] by simp
    note hs = handleString_remaining [of ?lx1]
    note hc = handleComment_remaining [of ?lx1]
    note mo = matchOr_remaining [of _ _ _ _ ?lx1]
    have "remaining (snd (nextToken lx0)) < remaining ?lx"
      unfolding nextToken_def Let_def split_beta bk
      using ne a hi hn hs hc mo
      by (simp del: One_nat_def) (meson le_less_trans)
    then show ?thesis using sk by linarith
  qed
  show "remaining (snd (nextToken lx0)) \<le> remaining lx0"
  proof (cases "isAtEnd ?lx")
    case True
    then show ?thesis using sk by (simp add: nextToken_def Let_def)
  next
    case False
    then show ?thesis using main by simp
  qed
  show "remaining (snd (nextToken lx0)) < remaining lx0"
    if "tok_type (fst (nextToken lx0)) \<noteq> EOF_TOKEN"
  proof (cases "isAtEnd ?lx")
    case True
    then show ?thesis using that by (simp add: nextToken_def Let_def makeToken_def mkToken_def)
  next
    case False
    then show ?thesis using main by simp
  qed
qed

subsection \<open>\<^verbatim>\<open>Lexer::tokenize\<close>\<close>

function tokenizeLoop :: "Token list \<Rightarrow> Token \<Rightarrow> Lexer \<Rightarrow> Token list \<times> Lexer" where
  "tokenizeLoop tokens token lx =
    (if tok_type token \<noteq> EOF_TOKEN then
       (let (token', lx') = nextToken lx in tokenizeLoop (tokens @ [token]) token' lx')
     else (tokens @ [token], lx))"
  by pat_completeness auto
termination
proof (relation "measure (\<lambda>(tokens, token, lx).
          2 * remaining lx + (if tok_type token \<noteq> EOF_TOKEN then 1 else 0))", goal_cases)
  case 1
  show ?case by simp
next
  case (2 tokens token lx x xa y)
  then have x: "xa = fst (nextToken lx)" "y = snd (nextToken lx)"
    by (metis fst_conv, metis snd_conv)
  show ?case
    using nextToken_remaining_le [of lx] nextToken_remaining_less [of lx]
    by (auto simp: x 2(1) split_beta)
qed

declare tokenizeLoop.simps [simp del]

definition tokenize :: "Lexer \<Rightarrow> Token list \<times> Lexer" where
  "tokenize lx = (let (token, lx1) = nextToken lx in tokenizeLoop [] token lx1)"

lemma keywordTable_types:
  "map_of keywordTable text = Some k \<Longrightarrow>
   k \<in> {LET, IF, THEN, ELSE, TYPE_INT, TYPE_FLOAT, TYPE_CHAR, TYPE_STR, TYPE_FUNC}"
  by (auto simp: keywordTable_def split: if_splits)

lemma handleIdentifier_type: "tok_type (fst (handleIdentifier lx)) \<noteq> NEWLINE"
  by (auto simp: handleIdentifier_def Let_def mkToken_def split: option.splits
      dest: keywordTable_types)

lemma handleNumber_type: "tok_type (fst (handleNumber lx)) \<noteq> NEWLINE"
  by (simp add: handleNumber_def Let_def mkToken_def split_beta)

lemma handleString_type: "tok_type (fst (handleString lx)) \<noteq> NEWLINE"
  by (simp add: handleString_def Let_def mkToken_def errorToken_def split_beta)

lemma handleComment_type: "tok_type (fst (handleComment lx)) \<noteq> NEWLINE"
  by (simp add: handleComment_def Let_def mkToken_def split_beta)

lemma matchOr_type:
  "t2 \<noteq> NEWLINE \<Longrightarrow> tok_type (ow (snd (match e lx))) \<noteq> NEWLINE \<Longrightarrow>
   tok_type (fst (matchOr e t2 v ow lx)) \<noteq> NEWLINE"
  by (simp add: matchOr_def Let_def split_beta makeToken_def mkToken_def)

lemma makeToken_type [simp]: "tok_type (makeToken t v lx) = t"
  by (simp add: makeToken_def mkToken_def)

lemma errorToken_type [simp]: "tok_type (errorToken m lx) = UNKNOWN"
  by (simp add: errorToken_def mkToken_def)

lemma nextToken_not_NEWLINE: "tok_type (fst (nextToken lx0)) \<noteq> NEWLINE"
proof -
  let ?lx = "skipWhitespace lx0"
  show ?thesis
  proof (cases "isAtEnd ?lx")
    case True
    then show ?thesis by (simp add: nextToken_def Let_def)
  next
    case False
    have c: "fst (advance ?lx) = peek ?lx 0" using False by (rule advance_fst)
    have nlf: "fst (advance ?lx) \<noteq> LF" using skipWhitespace_peek [of lx0] c by simp
    show ?thesis
      unfolding nextToken_def Let_def split_beta
      using False nlf
      by (simp add: handleIdentifier_type handleNumber_type handleString_type
          handleComment_type matchOr_type)
  qed
qed

lemma tokenizeLoop_no_NEWLINE:
  "NEWLINE \<notin> set (map tok_type tokens) \<Longrightarrow> tok_type token \<noteq> NEWLINE \<Longrightarrow>
   NEWLINE \<notin> set (map tok_type (fst (tokenizeLoop tokens token lx)))"
proof (induction tokens token lx rule: tokenizeLoop.induct)
  case (1 tokens token lx)
  show ?case
  proof (cases "tok_type token \<noteq> EOF_TOKEN")
    case True
    have eq: "tokenizeLoop tokens token lx =
        tokenizeLoop (tokens @ [token]) (fst (nextToken lx)) (snd (nextToken lx))"
      using True by (subst tokenizeLoop.simps) (simp add: split_beta)
    have "NEWLINE \<notin> set (map tok_type (fst (tokenizeLoop (tokens @ [token])
             (fst (nextToken lx)) (snd (nextToken lx)))))"
      using "1.prems" nextToken_not_NEWLINE [of lx]
      by (intro "1.IH" [OF True, of "nextToken lx"]) auto
    then show ?thesis using eq by simp
  next
    case False
    then have "tokenizeLoop tokens token lx = (tokens @ [token], lx)"
      by (subst tokenizeLoop.simps) simp
    then show ?thesis using "1.prems" by simp
  qed
qed

subsection \<open>Token kinds and locations of the token stream\<close>

text \<open>C8. For every source buffer (and file name), no token of the stream returned by
  \<^verbatim>\<open>tokenize\<close> has kind NEWLINE: \<^verbatim>\<open>skipWhitespace\<close> stops only in front of a byte
  that is not a line feed, so the \<^verbatim>\<open>case '\n'\<close> of the dispatch is never taken.\<close>

theorem tokenize_never_NEWLINE:
  "NEWLINE \<notin> set (map tok_type (fst (tokenize (newLexer inp fname))))"
  unfolding tokenize_def split_beta Let_def
  by (rule tokenizeLoop_no_NEWLINE) (simp_all add: nextToken_not_NEWLINE)

text \<open>The position the specification asks for: the 1-based line and column of the byte at
  offset \<open>i\<close> of the buffer. The line is one more than the number of line feeds in front of
  the byte, the column one more than the number of bytes since the last of them.\<close>

definition sourceLocation :: "string \<Rightarrow> nat \<Rightarrow> nat \<times> nat" where
  "sourceLocation inp i =
    (1 + length (filter (\<lambda>c. c = LF) (take i inp)),
     1 + length (takeWhile (\<lambda>c. c \<noteq> LF) (rev (take i inp))))"

definition tokenLocations :: "string \<Rightarrow> (TokenType \<times> nat \<times> nat) list" where
  "tokenLocations inp =
    map (\<lambda>t. (tok_type t, loc_line (tok_location t), loc_column (tok_location t)))
      (fst (tokenize (newLexer inp ''f'')))"

text \<open>C2. The claim asks that every token carries the line and column of its first byte.
  The code does not: \<^verbatim>\<open>skipWhitespace\<close> and \<^verbatim>\<open>handleString\<close> count a line feed that
  \<^verbatim>\<open>advance\<close> has counted already, a string literal takes the line on which it ends, and
  \<^verbatim>\<open>errorToken\<close> reads the column after the offending byte was consumed. In the buffer
  of a line feed followed by \<open>a\<close> the identifier starts at line 2, column 1 and is reported
  at line 3; the lone byte \<open>@\<close> stands at column 1 and is reported at column 2; a string
  literal opening the buffer and holding one line feed is reported at line 3.\<close>

theorem tokenize_locations_off:
  "tokenLocations [LF, CHR ''a''] = [(IDENTIFIER, 3, 1), (EOF_TOKEN, 3, 2)]
   \<and> sourceLocation [LF, CHR ''a''] 1 = (2, 1)
   \<and> tokenLocations ''@'' = [(UNKNOWN, 1, 2), (EOF_TOKEN, 1, 2)]
   \<and> sourceLocation ''@'' 0 = (1, 1)
   \<and> tokenLocations [DQUOTE, LF, DQUOTE] = [(STRING_LITERAL, 3, 1), (EOF_TOKEN, 3, 2)]
   \<and> sourceLocation [DQUOTE, LF, DQUOTE] 0 = (1, 1)"
  by code_simp

section \<open>The abstract syntax tree (include/ast.h)\<close>

datatype TypeKind = Type_INT | Type_FLOAT | Type_CHAR | Type_STR | Type_FUNC

text \<open>\<^verbatim>\<open>class Type\<close>. The parser never fills \<^verbatim>\<open>paramTypes\<close> and \<^verbatim>\<open>returnType\<close>, and the
  code generator never reads them: the node is its kind and its location.\<close>

record AstType =
  type_kind :: TypeKind
  type_location :: Location

datatype BinaryOpType =
    ADD | SUB | MUL | DIV
  | Op_LESS_THAN | Op_GREATER_THAN | Op_LESS_EQUAL | Op_GREATER_EQUAL
  | Op_EQUAL_EQUAL | Op_NOT_EQUAL

datatype UnaryOpType = NEG

text \<open>A C \<^verbatim>\<open>float\<close> is kept as its 32 bits; a C \<^verbatim>\<open>int\<close> as a 32-bit word.\<close>

type_synonym float32 = "32 word"

datatype Expression =
    StringLiteral string Location
  | IntLiteral "32 word" Location
  | FloatLiteral float32 Location
  | Identifier string Location
  | BinaryOp BinaryOpType Expression Expression Location
  | UnaryOp UnaryOpType Expression Location
  | FunctionCall string "Expression list" Location
  | ConditionalExpression Expression Expression Expression Location

fun exprLocation :: "Expression \<Rightarrow> Location" where
  "exprLocation (StringLiteral _ loc) = loc"
| "exprLocation (IntLiteral _ loc) = loc"
| "exprLocation (FloatLiteral _ loc) = loc"
| "exprLocation (Identifier _ loc) = loc"
| "exprLocation (BinaryOp _ _ _ loc) = loc"
| "exprLocation (UnaryOp _ _ loc) = loc"
| "exprLocation (FunctionCall _ _ loc) = loc"
| "exprLocation (ConditionalExpression _ _ _ loc) = loc"

record Parameter =
  param_name :: string
  param_type :: AstType
  param_location :: Location

record FunctionDef =
  fd_name :: string
  fd_returnType :: AstType
  fd_parameters :: "Parameter list"
  fd_body :: Expression
  fd_location :: Location

type_synonym Program = "FunctionDef list"

section \<open>The parser (src/parser.cpp)\<close>

text \<open>The exceptions the parser raises or receives from the standard library, each with the
  text \<^verbatim>\<open>what()\<close> returns.\<close>

datatype Exception =
    runtime_error string
  | out_of_range string
  | invalid_argument string

fun what :: "Exception \<Rightarrow> string" where
  "what (runtime_error m) = m"
| "what (out_of_range m) = m"
| "what (invalid_argument m) = m"

record Parser =
  tokens :: "Token list"
  current :: nat
  errors :: "string list"

text \<open>A parsing function changes the parser and either returns a value or throws: the
  parser it leaves behind is part of the result in both cases, since \<^verbatim>\<open>current\<close> keeps its
  value when an exception unwinds to the \<^verbatim>\<open>catch\<close> of \<^verbatim>\<open>Parser::parse\<close>.\<close>

type_synonym 'a presult = "(Exception + 'a) \<times> Parser"

definition bindP :: "'a presult \<Rightarrow> ('a \<Rightarrow> Parser \<Rightarrow> 'b presult) \<Rightarrow> 'b presult" where
  "bindP r k = (case r of (Inl e, ps) \<Rightarrow> (Inl e, ps) | (Inr x, ps) \<Rightarrow> k x ps)"

text \<open>\<^verbatim>\<open>tokens[current]\<close> and \<^verbatim>\<open>tokens[current - 1]\<close>: reads of a vector, which C++
  defines only within its bounds. The token vector ends with the end-of-input token and
  \<^verbatim>\<open>advance\<close> stops there, so every read the parser makes is within the vector (lemma
  \<open>wfParser\<close> below); outside it the model reads an end-of-input token.\<close>

definition outOfBounds :: Token where
  "outOfBounds = mkToken EOF_TOKEN [] (mkLocation 1 1 [])"

definition P_peek :: "Parser \<Rightarrow> Token" where
  "P_peek ps = (if current ps < length (tokens ps) then tokens ps ! current ps else outOfBounds)"

definition P_previous :: "Parser \<Rightarrow> Token" where
  "P_previous ps =
    (if 0 < current ps \<and> current ps - 1 < length (tokens ps) then tokens ps ! (current ps - 1)
     else outOfBounds)"

definition P_isAtEnd :: "Parser \<Rightarrow> bool" where
  "P_isAtEnd ps = (tok_type (P_peek ps) = EOF_TOKEN)"

definition P_advance :: "Parser \<Rightarrow> Token \<times> Parser" where
  "P_advance ps =
    (let ps1 = (if \<not> P_isAtEnd ps then ps\<lparr>current := current ps + 1\<rparr> else ps)
     in (P_previous ps1, ps1))"

definition P_check :: "TokenType \<Rightarrow> Parser \<Rightarrow> bool" where
  "P_check ty ps = (if P_isAtEnd ps then False else tok_type (P_peek ps) = ty)"

fun P_match :: "TokenType list \<Rightarrow> Parser \<Rightarrow> bool \<times> Parser" where
  "P_match [] ps = (False, ps)"
| "P_match (ty # types) ps =
    (if P_check ty ps then (True, snd (P_advance ps)) else P_match types ps)"

text \<open>Decimal output of an unsigned number, as \<^verbatim>\<open>operator<<\<close> prints it.\<close>

fun to_string :: "nat \<Rightarrow> string" where
  "to_string n =
    (if n < 10 then [char_of (48 + n)] else to_string (n div 10) @ [char_of (48 + n mod 10)])"

declare to_string.simps [simp del]

definition P_consume :: "TokenType \<Rightarrow> string \<Rightarrow> Parser \<Rightarrow> Token presult" where
  "P_consume ty message ps =
    (if P_check ty ps then (let (t, ps1) = P_advance ps in (Inr t, ps1))
     else
       (Inl (runtime_error
          (message @ '' at '' @ to_string (loc_line (tok_location (P_peek ps))) @ '':''
             @ to_string (loc_column (tok_location (P_peek ps))))), ps))"

definition error :: "string \<Rightarrow> Parser \<Rightarrow> Parser" where
  "error message ps = ps\<lparr>errors := errors ps @ [message]\<rparr>"

definition hasErrors :: "Parser \<Rightarrow> bool" where
  "hasErrors ps = (errors ps \<noteq> [])"

text \<open>\<^verbatim>\<open>std::stoi\<close>: \<^verbatim>\<open>strtol\<close> in base 10 (leading white space, an optional sign, then
  digits), \<^verbatim>\<open>std::invalid_argument\<close> when there is no digit, \<^verbatim>\<open>std::out_of_range\<close> when
  the value is not an \<^verbatim>\<open>int\<close>. Both exceptions answer \<^verbatim>\<open>what()\<close> with \<open>stoi\<close>.\<close>

definition isspace :: "char \<Rightarrow> bool" where
  "isspace c = (let n = (of_char c :: nat) in n = 32 \<or> (9 \<le> n \<and> n \<le> 13))"

definition decimal :: "string \<Rightarrow> int" where
  "decimal ds = foldl (\<lambda>a c. 10 * a + (int (of_char c) - 48)) 0 ds"

definition stoi :: "string \<Rightarrow> Exception + int" where
  "stoi s =
    (let s1 = dropWhile isspace s;
         (neg, s2) = (case s1 of
                        c # r \<Rightarrow> if c = CHR ''-'' then (True, r)
                                 else if c = CHR ''+'' then (False, r) else (False, s1)
                      | [] \<Rightarrow> (False, s1));
         ds = takeWhile isdigit s2
     in if ds = [] then Inl (invalid_argument ''stoi'')
        else
          let v = (if neg then - decimal ds else decimal ds)
          in if v < - (2 ^ 31) \<or> v > 2 ^ 31 - 1 then Inl (out_of_range ''stoi'') else Inr v)"

definition typeKindOf :: "TokenType \<Rightarrow> TypeKind option" where
  "typeKindOf t =
    (case t of
       TYPE_INT \<Rightarrow> Some Type_INT
     | TYPE_FLOAT \<Rightarrow> Some Type_FLOAT
     | TYPE_CHAR \<Rightarrow> Some Type_CHAR
     | TYPE_STR \<Rightarrow> Some Type_STR
     | TYPE_FUNC \<Rightarrow> Some Type_FUNC
     | _ \<Rightarrow> None)"

definition parseType :: "Parser \<Rightarrow> AstType presult" where
  "parseType ps =
    (let (typeToken, ps1) = P_advance ps in
     case typeKindOf (tok_type typeToken) of
       Some k \<Rightarrow> (Inr \<lparr>type_kind = k, type_location = tok_location typeToken\<rparr>, ps1)
     | None \<Rightarrow> (Inl (runtime_error ''Expected type identifier''), ps1))"


subsection \<open>Expressions\<close>


abbreviation SQUOTE :: char where "SQUOTE \<equiv> CHR 0x27"

definition quoted :: "string \<Rightarrow> string" where
  "quoted s = [SQUOTE] @ s @ [SQUOTE]"

text \<open>The recursive-descent functions for expressions call each other without bound; the
  model gives them a budget of nested calls and answers \<open>None\<close> when it is used up. The
  budget that \<open>Parser_parse\<close> hands out below is never used up (lemma \<open>parse_total\<close>).\<close>

type_synonym 'a oresult = "'a presult option"

definition bindO :: "'a oresult \<Rightarrow> ('a \<Rightarrow> Parser \<Rightarrow> 'b oresult) \<Rightarrow> 'b oresult" where
  "bindO r k =
    (case r of
       None \<Rightarrow> None
     | Some (Inl e, ps) \<Rightarrow> Some (Inl e, ps)
     | Some (Inr x, ps) \<Rightarrow> k x ps)"

definition comparisonOp :: "TokenType \<Rightarrow> BinaryOpType option" where
  "comparisonOp t =
    (case t of
       LESS_THAN \<Rightarrow> Some Op_LESS_THAN
     | GREATER_THAN \<Rightarrow> Some Op_GREATER_THAN
     | LESS_EQUAL \<Rightarrow> Some Op_LESS_EQUAL
     | GREATER_EQUAL \<Rightarrow> Some Op_GREATER_EQUAL
     | EQUAL_EQUAL \<Rightarrow> Some Op_EQUAL_EQUAL
     | NOT_EQUAL \<Rightarrow> Some Op_NOT_EQUAL
     | _ \<Rightarrow> None)"


text \<open>Each function of the expression grammar, with the functions it calls as parameters.\<close>

definition parseExpression_body :: "(Parser \<Rightarrow> Expression oresult) \<Rightarrow> (Parser \<Rightarrow> Expression oresult) \<Rightarrow> Parser \<Rightarrow> Expression oresult" where
  "parseExpression_body parseConditional parseComparison ps =
    (let (m, ps1) = P_match [IF] ps in
     if m then parseConditional ps1 else parseComparison ps1)"

definition parseConditional_body :: "(Parser \<Rightarrow> Expression oresult) \<Rightarrow> (Parser \<Rightarrow> Expression oresult) \<Rightarrow> Parser \<Rightarrow> Expression oresult" where
  "parseConditional_body parseComparison parseExpression ps =
    bindO (parseComparison ps) (\<lambda>condition ps1.
    bindO (Some (P_consume THEN (''Expected '' @ quoted ''then'' @ '' after if condition'') ps1))
      (\<lambda>_ ps2.
    bindO (parseExpression ps2) (\<lambda>thenExpr ps3.
    bindO (Some (P_consume ELSE (''Expected '' @ quoted ''else'' @ '' after then expression'') ps3))
      (\<lambda>_ ps4.
    bindO (parseExpression ps4) (\<lambda>elseExpr ps5.
    Some (Inr (ConditionalExpression condition thenExpr elseExpr (exprLocation condition)),
          ps5))))))"

definition parseComparison_body :: "(Parser \<Rightarrow> Expression oresult) \<Rightarrow> (Expression \<Rightarrow> Parser \<Rightarrow> Expression oresult) \<Rightarrow> Parser \<Rightarrow> Expression oresult" where
  "parseComparison_body parseAddition parseComparisonLoop ps =
    bindO (parseAddition ps) (\<lambda>expr ps1. parseComparisonLoop expr ps1)"

definition parseComparisonLoop_body :: "(Parser \<Rightarrow> Expression oresult) \<Rightarrow> (Expression \<Rightarrow> Parser \<Rightarrow> Expression oresult) \<Rightarrow> Expression \<Rightarrow> Parser \<Rightarrow> Expression oresult" where
  "parseComparisonLoop_body parseAddition parseComparisonLoop expr ps =
    (let (m, ps1) = P_match [LESS_THAN, GREATER_THAN, LESS_EQUAL, GREATER_EQUAL,
                             EQUAL_EQUAL, NOT_EQUAL] ps in
     if m then
       (let op = P_previous ps1 in
        bindO (parseAddition ps1) (\<lambda>right ps2.
          case comparisonOp (tok_type op) of
            Some opType \<Rightarrow>
              parseComparisonLoop (BinaryOp opType expr right (tok_location op)) ps2
          | None \<Rightarrow> Some (Inl (runtime_error ''Unknown comparison operator''), ps2)))
     else Some (Inr expr, ps1))"

definition parseAddition_body :: "(Parser \<Rightarrow> Expression oresult) \<Rightarrow> (Expression \<Rightarrow> Parser \<Rightarrow> Expression oresult) \<Rightarrow> Parser \<Rightarrow> Expression oresult" where
  "parseAddition_body parseMultiplication parseAdditionLoop ps =
    bindO (parseMultiplication ps) (\<lambda>expr ps1. parseAdditionLoop expr ps1)"

definition parseAdditionLoop_body :: "(Parser \<Rightarrow> Expression oresult) \<Rightarrow> (Expression \<Rightarrow> Parser \<Rightarrow> Expression oresult) \<Rightarrow> Expression \<Rightarrow> Parser \<Rightarrow> Expression oresult" where
  "parseAdditionLoop_body parseMultiplication parseAdditionLoop expr ps =
    (let (m, ps1) = P_match [PLUS, MINUS] ps in
     if m then
       (let op = P_previous ps1 in
        bindO (parseMultiplication ps1) (\<lambda>right ps2.
          let opType = (if tok_type op = PLUS then ADD else SUB) in
          parseAdditionLoop (BinaryOp opType expr right (tok_location op)) ps2))
     else Some (Inr expr, ps1))"

definition parseMultiplication_body :: "(Parser \<Rightarrow> Expression oresult) \<Rightarrow> (Expression \<Rightarrow> Parser \<Rightarrow> Expression oresult) \<Rightarrow> Parser \<Rightarrow> Expression oresult" where
  "parseMultiplication_body parseUnary parseMultiplicationLoop ps =
    bindO (parseUnary ps) (\<lambda>expr ps1. parseMultiplicationLoop expr ps1)"

definition parseMultiplicationLoop_body :: "(Parser \<Rightarrow> Expression oresult) \<Rightarrow> (Expression \<Rightarrow> Parser \<Rightarrow> Expression oresult) \<Rightarrow> Expression \<Rightarrow> Parser \<Rightarrow> Expression oresult" where
  "parseMultiplicationLoop_body parseUnary parseMultiplicationLoop expr ps =
    (let (m, ps1) = P_match [MULTIPLY, DIVIDE] ps in
     if m then
       (let op = P_previous ps1 in
        bindO (parseUnary ps1) (\<lambda>right ps2.
          let opType = (if tok_type op = MULTIPLY then MUL else DIV) in
          parseMultiplicationLoop (BinaryOp opType expr right (tok_location op)) ps2))
     else Some (Inr expr, ps1))"

definition parseUnary_body :: "(Parser \<Rightarrow> Expression oresult) \<Rightarrow> (Parser \<Rightarrow> Expression oresult) \<Rightarrow> Parser \<Rightarrow> Expression oresult" where
  "parseUnary_body parseUnary parsePrimary ps =
    (let (m, ps1) = P_match [MINUS] ps in
     if m then
       (let op = P_previous ps1 in
        bindO (parseUnary ps1) (\<lambda>expr ps2.
          Some (Inr (UnaryOp NEG expr (tok_location op)), ps2)))
     else parsePrimary ps1)"

definition parsePrimary_body ::
  "(string \<Rightarrow> Exception + float32) \<Rightarrow> (Expression \<Rightarrow> Parser \<Rightarrow> Expression oresult) \<Rightarrow> (Parser \<Rightarrow> Expression oresult) \<Rightarrow> Parser \<Rightarrow> Expression oresult" where
  "parsePrimary_body stof parseCall parseExpression ps =
    (let (m1, ps1) = P_match [STRING_LITERAL] ps in
     if m1 then
       Some (Inr (StringLiteral (tok_value (P_previous ps1)) (tok_location (P_previous ps1))), ps1)
     else
     let (m2, ps2) = P_match [INT_LITERAL] ps1 in
     if m2 then
       (case stoi (tok_value (P_previous ps2)) of
          Inl e \<Rightarrow> Some (Inl e, ps2)
        | Inr v \<Rightarrow> Some (Inr (IntLiteral (word_of_int v) (tok_location (P_previous ps2))), ps2))
     else
     let (m3, ps3) = P_match [FLOAT_LITERAL] ps2 in
     if m3 then
       (case stof (tok_value (P_previous ps3)) of
          Inl e \<Rightarrow> Some (Inl e, ps3)
        | Inr v \<Rightarrow> Some (Inr (FloatLiteral v (tok_location (P_previous ps3))), ps3))
     else
     let (m4, ps4) = P_match [IDENTIFIER] ps3 in
     if m4 then
       (let identifier = Identifier (tok_value (P_previous ps4)) (tok_location (P_previous ps4)) in
        if P_check LPAREN ps4 then parseCall identifier ps4
        else Some (Inr identifier, ps4))
     else
     let (m5, ps5) = P_match [LPAREN] ps4 in
     if m5 then
       bindO (parseExpression ps5) (\<lambda>expr ps6.
       bindO (Some (P_consume RPAREN (''Expected '' @ quoted '')'' @ '' after expression'') ps6))
         (\<lambda>_ ps7.
       Some (Inr expr, ps7)))
     else Some (Inl (runtime_error ''Expected expression''), ps5))"

definition parseCall_body :: "(Expression list \<Rightarrow> Parser \<Rightarrow> (Expression list) oresult) \<Rightarrow> Expression \<Rightarrow> Parser \<Rightarrow> Expression oresult" where
  "parseCall_body parseArguments expr ps =
    (case expr of
       Identifier name loc \<Rightarrow>
         bindO (Some (P_consume LPAREN (''Expected '' @ quoted ''('' @ '' after function name'') ps))
           (\<lambda>_ ps1.
         bindO (if \<not> P_check RPAREN ps1 then parseArguments [] ps1 else Some (Inr [], ps1))
           (\<lambda>arguments ps2.
         bindO (Some (P_consume RPAREN (''Expected '' @ quoted '')'' @ '' after arguments'') ps2))
           (\<lambda>_ ps3.
         Some (Inr (FunctionCall name arguments loc), ps3))))
     | _ \<Rightarrow> Some (Inl (runtime_error (''Expected function name before '' @ quoted ''('')), ps))"

definition parseArguments_body ::
  "(Parser \<Rightarrow> Expression oresult) \<Rightarrow> (Expression list \<Rightarrow> Parser \<Rightarrow> (Expression list) oresult) \<Rightarrow> Expression list \<Rightarrow> Parser \<Rightarrow> (Expression list) oresult" where
  "parseArguments_body parseExpression parseArguments arguments ps =
    bindO (parseExpression ps) (\<lambda>arg ps1.
      let arguments1 = arguments @ [arg];
          (m, ps2) = P_match [COMMA] ps1
      in if m then parseArguments arguments1 ps2 else Some (Inr arguments1, ps2))"

text \<open>The functions themselves, all at once for a given budget: with none left every one
  of them gives up, and with one more each runs its body over the functions of the budget
  before.\<close>

record Parsers =
  p_Expression :: "Parser \<Rightarrow> Expression oresult"
  p_Conditional :: "Parser \<Rightarrow> Expression oresult"
  p_Comparison :: "Parser \<Rightarrow> Expression oresult"
  p_ComparisonLoop :: "Expression \<Rightarrow> Parser \<Rightarrow> Expression oresult"
  p_Addition :: "Parser \<Rightarrow> Expression oresult"
  p_AdditionLoop :: "Expression \<Rightarrow> Parser \<Rightarrow> Expression oresult"
  p_Multiplication :: "Parser \<Rightarrow> Expression oresult"
  p_MultiplicationLoop :: "Expression \<Rightarrow> Parser \<Rightarrow> Expression oresult"
  p_Unary :: "Parser \<Rightarrow> Expression oresult"
  p_Primary :: "Parser \<Rightarrow> Expression oresult"
  p_Call :: "Expression \<Rightarrow> Parser \<Rightarrow> Expression oresult"
  p_Arguments :: "Expression list \<Rightarrow> Parser \<Rightarrow> (Expression list) oresult"

primrec parsersAt :: "(string \<Rightarrow> Exception + float32) \<Rightarrow> nat \<Rightarrow> Parsers" where
  "parsersAt stof 0 =
    \<lparr>p_Expression = (\<lambda>ps. None),
     p_Conditional = (\<lambda>ps. None),
     p_Comparison = (\<lambda>ps. None),
     p_ComparisonLoop = (\<lambda>expr ps. None),
     p_Addition = (\<lambda>ps. None),
     p_AdditionLoop = (\<lambda>expr ps. None),
     p_Multiplication = (\<lambda>ps. None),
     p_MultiplicationLoop = (\<lambda>expr ps. None),
     p_Unary = (\<lambda>ps. None),
     p_Primary = (\<lambda>ps. None),
     p_Call = (\<lambda>expr ps. None),
     p_Arguments = (\<lambda>arguments ps. None)\<rparr>"
| "parsersAt stof (Suc n) =
    (let p = parsersAt stof n in
     \<lparr>p_Expression = parseExpression_body (p_Conditional p) (p_Comparison p),
      p_Conditional = parseConditional_body (p_Comparison p) (p_Expression p),
      p_Comparison = parseComparison_body (p_Addition p) (p_ComparisonLoop p),
      p_ComparisonLoop = parseComparisonLoop_body (p_Addition p) (p_ComparisonLoop p),
      p_Addition = parseAddition_body (p_Multiplication p) (p_AdditionLoop p),
      p_AdditionLoop = parseAdditionLoop_body (p_Multiplication p) (p_AdditionLoop p),
      p_Multiplication = parseMultiplication_body (p_Unary p) (p_MultiplicationLoop p),
      p_MultiplicationLoop = parseMultiplicationLoop_body (p_Unary p) (p_MultiplicationLoop p),
      p_Unary = parseUnary_body (p_Unary p) (p_Primary p),
      p_Primary = parsePrimary_body stof (p_Call p) (p_Expression p),
      p_Call = parseCall_body (p_Arguments p),
      p_Arguments = parseArguments_body (p_Expression p) (p_Arguments p)\<rparr>)"

definition parseExpression :: "(string \<Rightarrow> Exception + float32) \<Rightarrow> nat \<Rightarrow> Parser \<Rightarrow> Expression oresult" where
  "parseExpression stof n = p_Expression (parsersAt stof n)"

definition parseConditional :: "(string \<Rightarrow> Exception + float32) \<Rightarrow> nat \<Rightarrow> Parser \<Rightarrow> Expression oresult" where
  "parseConditional stof n = p_Conditional (parsersAt stof n)"

definition parseComparison :: "(string \<Rightarrow> Exception + float32) \<Rightarrow> nat \<Rightarrow> Parser \<Rightarrow> Expression oresult" where
  "parseComparison stof n = p_Comparison (parsersAt stof n)"

definition parseComparisonLoop :: "(string \<Rightarrow> Exception + float32) \<Rightarrow> nat \<Rightarrow> Expression \<Rightarrow> Parser \<Rightarrow> Expression oresult" where
  "parseComparisonLoop stof n = p_ComparisonLoop (parsersAt stof n)"

definition parseAddition :: "(string \<Rightarrow> Exception + float32) \<Rightarrow> nat \<Rightarrow> Parser \<Rightarrow> Expression oresult" where
  "parseAddition stof n = p_Addition (parsersAt stof n)"

definition parseAdditionLoop :: "(string \<Rightarrow> Exception + float32) \<Rightarrow> nat \<Rightarrow> Expression \<Rightarrow> Parser \<Rightarrow> Expression oresult" where
  "parseAdditionLoop stof n = p_AdditionLoop (parsersAt stof n)"

definition parseMultiplication :: "(string \<Rightarrow> Exception + float32) \<Rightarrow> nat \<Rightarrow> Parser \<Rightarrow> Expression oresult" where
  "parseMultiplication stof n = p_Multiplication (parsersAt stof n)"

definition parseMultiplicationLoop :: "(string \<Rightarrow> Exception + float32) \<Rightarrow> nat \<Rightarrow> Expression \<Rightarrow> Parser \<Rightarrow> Expression oresult" where
  "parseMultiplicationLoop stof n = p_MultiplicationLoop (parsersAt stof n)"

definition parseUnary :: "(string \<Rightarrow> Exception + float32) \<Rightarrow> nat \<Rightarrow> Parser \<Rightarrow> Expression oresult" where
  "parseUnary stof n = p_Unary (parsersAt stof n)"

definition parsePrimary :: "(string \<Rightarrow> Exception + float32) \<Rightarrow> nat \<Rightarrow> Parser \<Rightarrow> Expression oresult" where
  "parsePrimary stof n = p_Primary (parsersAt stof n)"

definition parseCall :: "(string \<Rightarrow> Exception + float32) \<Rightarrow> nat \<Rightarrow> Expression \<Rightarrow> Parser \<Rightarrow> Expression oresult" where
  "parseCall stof n = p_Call (parsersAt stof n)"

definition parseArguments :: "(string \<Rightarrow> Exception + float32) \<Rightarrow> nat \<Rightarrow> Expression list \<Rightarrow> Parser \<Rightarrow> (Expression list) oresult" where
  "parseArguments stof n = p_Arguments (parsersAt stof n)"

text \<open>The equations of the functions, as the source has them.\<close>

lemma parseExpression_0 [simp]: "parseExpression stof 0 ps = None"
  by (simp add: parseExpression_def)

lemma parseExpression_Suc:
  "parseExpression stof (Suc n) ps =
    parseExpression_body (parseConditional stof n) (parseComparison stof n) ps"
  by (simp add: parseComparison_def parseConditional_def parseExpression_def Let_def)

lemma parseConditional_0 [simp]: "parseConditional stof 0 ps = None"
  by (simp add: parseConditional_def)

lemma parseConditional_Suc:
  "parseConditional stof (Suc n) ps =
    parseConditional_body (parseComparison stof n) (parseExpression stof n) ps"
  by (simp add: parseComparison_def parseConditional_def parseExpression_def Let_def)

lemma parseComparison_0 [simp]: "parseComparison stof 0 ps = None"
  by (simp add: parseComparison_def)

lemma parseComparison_Suc:
  "parseComparison stof (Suc n) ps =
    parseComparison_body (parseAddition stof n) (parseComparisonLoop stof n) ps"
  by (simp add: parseAddition_def parseComparisonLoop_def parseComparison_def Let_def)

lemma parseComparisonLoop_0 [simp]: "parseComparisonLoop stof 0 expr ps = None"
  by (simp add: parseComparisonLoop_def)

lemma parseComparisonLoop_Suc:
  "parseComparisonLoop stof (Suc n) expr ps =
    parseComparisonLoop_body (parseAddition stof n) (parseComparisonLoop stof n) expr ps"
  by (simp add: parseAddition_def parseComparisonLoop_def Let_def)

lemma parseAddition_0 [simp]: "parseAddition stof 0 ps = None"
  by (simp add: parseAddition_def)

lemma parseAddition_Suc:
  "parseAddition stof (Suc n) ps =
    parseAddition_body (parseMultiplication stof n) (parseAdditionLoop stof n) ps"
  by (simp add: parseAdditionLoop_def parseAddition_def parseMultiplication_def Let_def)

lemma parseAdditionLoop_0 [simp]: "parseAdditionLoop stof 0 expr ps = None"
  by (simp add: parseAdditionLoop_def)

lemma parseAdditionLoop_Suc:
  "parseAdditionLoop stof (Suc n) expr ps =
    parseAdditionLoop_body (parseMultiplication stof n) (parseAdditionLoop stof n) expr ps"
  by (simp add: parseAdditionLoop_def parseMultiplication_def Let_def)

lemma parseMultiplication_0 [simp]: "parseMultiplication stof 0 ps = None"
  by (simp add: parseMultiplication_def)

lemma parseMultiplication_Suc:
  "parseMultiplication stof (Suc n) ps =
    parseMultiplication_body (parseUnary stof n) (parseMultiplicationLoop stof n) ps"
  by (simp add: parseMultiplicationLoop_def parseMultiplication_def parseUnary_def Let_def)

lemma parseMultiplicationLoop_0 [simp]: "parseMultiplicationLoop stof 0 expr ps = None"
  by (simp add: parseMultiplicationLoop_def)

lemma parseMultiplicationLoop_Suc:
  "parseMultiplicationLoop stof (Suc n) expr ps =
    parseMultiplicationLoop_body (parseUnary stof n) (parseMultiplicationLoop stof n) expr ps"
  by (simp add: parseMultiplicationLoop_def parseUnary_def Let_def)

lemma parseUnary_0 [simp]: "parseUnary stof 0 ps = None"
  by (simp add: parseUnary_def)

lemma parseUnary_Suc:
  "parseUnary stof (Suc n) ps =
    parseUnary_body (parseUnary stof n) (parsePrimary stof n) ps"
  by (simp add: parsePrimary_def parseUnary_def Let_def)

lemma parsePrimary_0 [simp]: "parsePrimary stof 0 ps = None"
  by (simp add: parsePrimary_def)

lemma parsePrimary_Suc:
  "parsePrimary stof (Suc n) ps =
    parsePrimary_body stof (parseCall stof n) (parseExpression stof n) ps"
  by (simp add: parseCall_def parseExpression_def parsePrimary_def Let_def)

lemma parseCall_0 [simp]: "parseCall stof 0 expr ps = None"
  by (simp add: parseCall_def)

lemma parseCall_Suc:
  "parseCall stof (Suc n) expr ps =
    parseCall_body (parseArguments stof n) expr ps"
  by (simp add: parseArguments_def parseCall_def Let_def)

lemma parseArguments_0 [simp]: "parseArguments stof 0 arguments ps = None"
  by (simp add: parseArguments_def)

lemma parseArguments_Suc:
  "parseArguments stof (Suc n) arguments ps =
    parseArguments_body (parseExpression stof n) (parseArguments stof n) arguments ps"
  by (simp add: parseArguments_def parseExpression_def Let_def)

subsection \<open>What parsing leaves unchanged\<close>

definition steps :: "Parser \<Rightarrow> Parser \<Rightarrow> bool" where
  "steps ps ps' = (tokens ps' = tokens ps \<and> errors ps' = errors ps \<and> current ps \<le> current ps')"

definition okP :: "Parser \<Rightarrow> 'a presult \<Rightarrow> bool" where
  "okP ps r = steps ps (snd r)"

definition okO :: "Parser \<Rightarrow> 'a oresult \<Rightarrow> bool" where
  "okO ps r = (case r of None \<Rightarrow> True | Some x \<Rightarrow> okP ps x)"

lemma steps_refl [simp]: "steps ps ps"
  by (simp add: steps_def)

lemma steps_trans: "steps a b \<Longrightarrow> steps b c \<Longrightarrow> steps a c"
  by (simp add: steps_def)

lemma okO_None [simp]: "okO ps None"
  by (simp add: okO_def)

lemma okO_Some [simp]: "okO ps (Some r) = okP ps r"
  by (simp add: okO_def)

lemma okP_pair [simp]: "okP ps (x, ps') = steps ps ps'"
  by (simp add: okP_def)

lemma okO_weaken: "steps ps ps1 \<Longrightarrow> okO ps1 r \<Longrightarrow> okO ps r"
  by (auto simp: okO_def okP_def split: option.splits intro: steps_trans)

lemma okP_weaken: "steps ps ps1 \<Longrightarrow> okP ps1 r \<Longrightarrow> okP ps r"
  by (auto simp: okP_def intro: steps_trans)

lemma okO_bindO:
  assumes "okO ps r" and "\<And>x ps'. steps ps ps' \<Longrightarrow> okO ps' (k x ps')"
  shows "okO ps (bindO r k)"
proof (cases r)
  case None
  then show ?thesis by (simp add: bindO_def)
next
  case (Some a)
  obtain v ps' where a: "a = (v, ps')" by (cases a)
  have st: "steps ps ps'" using assms(1) Some a by simp
  show ?thesis
  proof (cases v)
    case (Inl e)
    then show ?thesis using Some a st by (simp add: bindO_def)
  next
    case (Inr x)
    then have "bindO r k = k x ps'" using Some a by (simp add: bindO_def)
    then show ?thesis using assms(2) [OF st, of x] st okO_weaken by metis
  qed
qed

lemma okP_bindP:
  assumes "okP ps r" and "\<And>x ps'. steps ps ps' \<Longrightarrow> okP ps' (k x ps')"
  shows "okP ps (bindP r k)"
proof -
  obtain v ps' where a: "r = (v, ps')" by (cases r)
  have st: "steps ps ps'" using assms(1) a by simp
  show ?thesis
  proof (cases v)
    case (Inl e)
    then show ?thesis using a st by (simp add: bindP_def)
  next
    case (Inr x)
    then have "bindP r k = k x ps'" using a by (simp add: bindP_def)
    then show ?thesis using assms(2) [OF st, of x] st okP_weaken by metis
  qed
qed

lemma P_advance_steps: "steps ps (snd (P_advance ps))"
  by (simp add: P_advance_def Let_def steps_def)

lemma P_match_steps: "steps ps (snd (P_match ts ps))"
  by (induction ts) (simp_all add: P_advance_steps)

lemma P_consume_ok: "okP ps (P_consume ty m ps)"
  using P_advance_steps [of ps] by (simp add: P_consume_def split_beta okP_def)

lemma parseType_ok: "okP ps (parseType ps)"
  using P_advance_steps [of ps]
  by (simp add: parseType_def split_beta okP_def split: option.splits)

lemma okO_call: "(\<And>p. okO p (f p)) \<Longrightarrow> steps ps q \<Longrightarrow> okO ps (f q)"
  by (rule okO_weaken)

lemma okO_call2: "(\<And>e p. okO p (f e p)) \<Longrightarrow> steps ps q \<Longrightarrow> okO ps (f e q)"
  by (rule okO_weaken)

lemmas ok_intros = okO_bindO P_match_steps P_consume_ok steps_refl

lemma parseExpression_body_ok:
  assumes "\<And>p. okO p (pc p)" "\<And>p. okO p (pm p)"
  shows "okO ps (parseExpression_body pc pm ps)"
  unfolding parseExpression_body_def Let_def split_beta
  by (auto simp del: P_match.simps intro!: ok_intros okO_call [OF assms(1)] okO_call [OF assms(2)])

lemma parseConditional_body_ok:
  assumes "\<And>p. okO p (pc p)" "\<And>p. okO p (pe p)"
  shows "okO ps (parseConditional_body pc pe ps)"
  unfolding parseConditional_body_def
  by (auto simp del: P_match.simps intro!: ok_intros okO_call [OF assms(1)] okO_call [OF assms(2)])

lemma parseComparison_body_ok:
  assumes "\<And>p. okO p (pa p)" "\<And>e p. okO p (pl e p)"
  shows "okO ps (parseComparison_body pa pl ps)"
  unfolding parseComparison_body_def
  by (auto simp del: P_match.simps intro!: ok_intros okO_call [OF assms(1)] okO_call2 [OF assms(2)])

lemma parseComparisonLoop_body_ok:
  assumes "\<And>p. okO p (pa p)" "\<And>e p. okO p (pl e p)"
  shows "okO ps (parseComparisonLoop_body pa pl expr ps)"
  unfolding parseComparisonLoop_body_def Let_def split_beta
  by (auto simp del: P_match.simps split: option.splits
      intro!: ok_intros okO_call [OF assms(1)] okO_call2 [OF assms(2)])

lemma parseAddition_body_ok:
  assumes "\<And>p. okO p (pa p)" "\<And>e p. okO p (pl e p)"
  shows "okO ps (parseAddition_body pa pl ps)"
  unfolding parseAddition_body_def
  by (auto simp del: P_match.simps intro!: ok_intros okO_call [OF assms(1)] okO_call2 [OF assms(2)])

lemma parseAdditionLoop_body_ok:
  assumes "\<And>p. okO p (pa p)" "\<And>e p. okO p (pl e p)"
  shows "okO ps (parseAdditionLoop_body pa pl expr ps)"
  unfolding parseAdditionLoop_body_def Let_def split_beta
  by (auto simp del: P_match.simps
      intro!: ok_intros okO_call [OF assms(1)] okO_call2 [OF assms(2)])

lemma parseMultiplication_body_ok:
  assumes "\<And>p. okO p (pa p)" "\<And>e p. okO p (pl e p)"
  shows "okO ps (parseMultiplication_body pa pl ps)"
  unfolding parseMultiplication_body_def
  by (auto simp del: P_match.simps intro!: ok_intros okO_call [OF assms(1)] okO_call2 [OF assms(2)])

lemma parseMultiplicationLoop_body_ok:
  assumes "\<And>p. okO p (pa p)" "\<And>e p. okO p (pl e p)"
  shows "okO ps (parseMultiplicationLoop_body pa pl expr ps)"
  unfolding parseMultiplicationLoop_body_def Let_def split_beta
  by (auto simp del: P_match.simps
      intro!: ok_intros okO_call [OF assms(1)] okO_call2 [OF assms(2)])

lemma parseUnary_body_ok:
  assumes "\<And>p. okO p (pu p)" "\<And>p. okO p (pp p)"
  shows "okO ps (parseUnary_body pu pp ps)"
  unfolding parseUnary_body_def Let_def split_beta
  by (auto simp del: P_match.simps
      intro!: ok_intros okO_call [OF assms(1)] okO_call [OF assms(2)])

lemma steps_match2: "steps ps (snd (P_match b (snd (P_match a ps))))"
  by (meson P_match_steps steps_trans)

lemma okO_if: "okO ps a \<Longrightarrow> okO ps b \<Longrightarrow> okO ps (if c then a else b)"
  by simp

lemma okO_case_sum:
  "(\<And>e. okO ps (f e)) \<Longrightarrow> (\<And>v. okO ps (g v)) \<Longrightarrow> okO ps (case x of Inl e \<Rightarrow> f e | Inr v \<Rightarrow> g v)"
  by (cases x) simp_all

lemma parsePrimary_body_ok:
  assumes "\<And>e p. okO p (pc e p)" "\<And>p. okO p (pe p)"
  shows "okO ps (parsePrimary_body stof pc pe ps)"
proof -
  let ?p1 = "snd (P_match [STRING_LITERAL] ps)"
  let ?p2 = "snd (P_match [INT_LITERAL] ?p1)"
  let ?p3 = "snd (P_match [FLOAT_LITERAL] ?p2)"
  let ?p4 = "snd (P_match [IDENTIFIER] ?p3)"
  let ?p5 = "snd (P_match [LPAREN] ?p4)"
  have s1: "steps ps ?p1" by (rule P_match_steps)
  have s2: "steps ps ?p2" using s1 P_match_steps steps_trans by blast
  have s3: "steps ps ?p3" using s2 P_match_steps steps_trans by blast
  have s4: "steps ps ?p4" using s3 P_match_steps steps_trans by blast
  have s5: "steps ps ?p5" using s4 P_match_steps steps_trans by blast
  have paren: "okO ?p5 (bindO (pe ?p5) (\<lambda>expr ps6.
       bindO (Some (P_consume RPAREN (''Expected '' @ quoted '')'' @ '' after expression'') ps6))
         (\<lambda>_ ps7. Some (Inr expr, ps7))))"
    by (intro okO_bindO assms(2)) (simp_all add: P_consume_ok)
  show ?thesis
    unfolding parsePrimary_body_def Let_def split_beta
    by (intro okO_if okO_case_sum okO_weaken [OF s5 paren] okO_call2 [OF assms(1) s4])
       (simp_all add: s1 s2 s3 s4 s5 del: P_match.simps)
qed

lemma parseCall_body_ok:
  assumes "\<And>a p. okO p (pa a p)"
  shows "okO ps (parseCall_body pa expr ps)"
  unfolding parseCall_body_def
  by (auto simp del: P_match.simps split: Expression.splits
      intro!: ok_intros okO_call2 [OF assms(1)])

lemma parseArguments_body_ok:
  assumes "\<And>p. okO p (pe p)" "\<And>a p. okO p (pa a p)"
  shows "okO ps (parseArguments_body pe pa arguments ps)"
  unfolding parseArguments_body_def Let_def split_beta
  by (auto simp del: P_match.simps
      intro!: ok_intros okO_call [OF assms(1)] okO_call2 [OF assms(2)])


text \<open>All twelve functions, for every budget.\<close>

lemma parsers_ok:
  "(\<forall>ps. okO ps (parseExpression stof n ps))
 \<and> (\<forall>ps. okO ps (parseConditional stof n ps))
 \<and> (\<forall>ps. okO ps (parseComparison stof n ps))
 \<and> (\<forall>e ps. okO ps (parseComparisonLoop stof n e ps))
 \<and> (\<forall>ps. okO ps (parseAddition stof n ps))
 \<and> (\<forall>e ps. okO ps (parseAdditionLoop stof n e ps))
 \<and> (\<forall>ps. okO ps (parseMultiplication stof n ps))
 \<and> (\<forall>e ps. okO ps (parseMultiplicationLoop stof n e ps))
 \<and> (\<forall>ps. okO ps (parseUnary stof n ps))
 \<and> (\<forall>ps. okO ps (parsePrimary stof n ps))
 \<and> (\<forall>e ps. okO ps (parseCall stof n e ps))
 \<and> (\<forall>a ps. okO ps (parseArguments stof n a ps))"
proof (induction n)
  case 0
  show ?case by simp
next
  case (Suc n)
  then show ?case
    by (simp add: parseExpression_Suc parseConditional_Suc parseComparison_Suc
        parseComparisonLoop_Suc parseAddition_Suc parseAdditionLoop_Suc parseMultiplication_Suc
        parseMultiplicationLoop_Suc parseUnary_Suc parsePrimary_Suc parseCall_Suc
        parseArguments_Suc
        parseExpression_body_ok parseConditional_body_ok parseComparison_body_ok
        parseComparisonLoop_body_ok parseAddition_body_ok parseAdditionLoop_body_ok
        parseMultiplication_body_ok parseMultiplicationLoop_body_ok parseUnary_body_ok
        parsePrimary_body_ok parseCall_body_ok parseArguments_body_ok)
qed

lemma parseExpression_ok: "okO ps (parseExpression stof n ps)"
  using parsers_ok [of stof n] by blast


subsection \<open>Function definitions and the top level\<close>

definition remainingTokens :: "Parser \<Rightarrow> nat" where
  "remainingTokens ps = length (tokens ps) - current ps"

lemma P_advance_progress:
  "\<not> P_isAtEnd ps \<Longrightarrow> remainingTokens (snd (P_advance ps)) < remainingTokens ps"
  by (auto simp: P_advance_def P_isAtEnd_def P_peek_def outOfBounds_def mkToken_def
      remainingTokens_def Let_def split: if_splits)

lemma P_match_progress:
  "fst (P_match ts ps) \<Longrightarrow> remainingTokens (snd (P_match ts ps)) < remainingTokens ps"
  by (induction ts) (auto simp: P_check_def P_advance_progress split: if_splits)

lemma P_consume_progress:
  "P_consume ty m ps = (Inr t, ps1) \<Longrightarrow> remainingTokens ps1 < remainingTokens ps"
  using P_advance_progress [of ps]
  by (auto simp: P_consume_def P_check_def split_beta split: if_splits)

lemma steps_remaining: "steps ps ps1 \<Longrightarrow> remainingTokens ps1 \<le> remainingTokens ps"
  by (auto simp: steps_def remainingTokens_def)

lemma bindP_cong [fundef_cong]:
  "r = r' \<Longrightarrow> (\<And>x ps. r' = (Inr x, ps) \<Longrightarrow> k x ps = k' x ps) \<Longrightarrow> bindP r k = bindP r' k'"
  by (auto simp: bindP_def split: prod.splits sum.splits)

function parametersLoop :: "Parser \<Rightarrow> Parameter list \<Rightarrow> (Parameter list) presult" where
  "parametersLoop ps params =
    bindP (P_consume IDENTIFIER ''Expected parameter name'' ps) (\<lambda>paramName ps1.
    bindP (P_consume COLON (''Expected '' @ quoted '':'' @ '' after parameter name'') ps1)
      (\<lambda>_ ps2.
    bindP (parseType ps2) (\<lambda>paramType ps3.
      let params1 = params @ [\<lparr>param_name = tok_value paramName, param_type = paramType,
                                param_location = tok_location paramName\<rparr>]
      in if fst (P_match [COMMA] ps3) then parametersLoop (snd (P_match [COMMA] ps3)) params1
         else (Inr params1, snd (P_match [COMMA] ps3)))))"
  by pat_completeness auto
termination
proof (relation "measure (\<lambda>(ps, params). remainingTokens ps)", goal_cases)
  case 1
  show ?case by simp
next
  case (2 ps params paramName ps1 u ps2 paramType ps3 params1)
  have a: "remainingTokens ps1 < remainingTokens ps" using 2(1) by (rule P_consume_progress)
  have b: "remainingTokens ps2 < remainingTokens ps1" using 2(2) by (rule P_consume_progress)
  have c: "remainingTokens ps3 \<le> remainingTokens ps2"
    using parseType_ok [of ps2] 2(3) by (simp add: okP_def steps_remaining)
  have d: "remainingTokens (snd (P_match [COMMA] ps3)) \<le> remainingTokens ps3"
    using P_match_steps by (rule steps_remaining)
  show ?case using a b c d by simp
qed

declare parametersLoop.simps [simp del]

definition parseParameters :: "Parser \<Rightarrow> (Parameter list) presult" where
  "parseParameters ps = (if P_check RPAREN ps then (Inr [], ps) else parametersLoop ps [])"

definition parseFunction ::
  "(string \<Rightarrow> Exception + float32) \<Rightarrow> nat \<Rightarrow> Parser \<Rightarrow> FunctionDef oresult" where
  "parseFunction stof n ps =
    bindO (Some (P_consume LET
      (''Expected '' @ quoted ''let'' @ '' at start of function definition'') ps)) (\<lambda>_ ps1.
    bindO (Some (P_consume IDENTIFIER (''Expected function name after '' @ quoted ''let'') ps1))
      (\<lambda>nameToken ps2.
    bindO (Some (P_consume COLON (''Expected '' @ quoted '':'' @ '' after function name'') ps2))
      (\<lambda>_ ps3.
    bindO (Some (parseType ps3)) (\<lambda>returnType ps4.
    bindO (Some (P_consume EQUALS (''Expected '' @ quoted ''='' @ '' after return type'') ps4))
      (\<lambda>_ ps5.
    bindO (Some (P_consume LPAREN (''Expected '' @ quoted ''('' @ '' for function parameters'') ps5))
      (\<lambda>_ ps6.
    bindO (Some (parseParameters ps6)) (\<lambda>parameters ps7.
    bindO (Some (P_consume RPAREN
      (''Expected '' @ quoted '')'' @ '' after function parameters'') ps7)) (\<lambda>_ ps8.
    bindO (Some (P_consume ARROW (''Expected '' @ quoted ''->'' @ '' after parameters'') ps8))
      (\<lambda>_ ps9.
    bindO (parseExpression stof n ps9) (\<lambda>body ps10.
    Some (Inr \<lparr>fd_name = tok_value nameToken, fd_returnType = returnType,
               fd_parameters = parameters, fd_body = body,
               fd_location = tok_location nameToken\<rparr>, ps10)))))))))))"

function synchronizeLoop :: "Parser \<Rightarrow> Parser" where
  "synchronizeLoop ps =
    (if \<not> P_isAtEnd ps then
       (if tok_type (P_previous ps) = NEWLINE then ps
        else if tok_type (P_peek ps) = LET then ps
        else synchronizeLoop (snd (P_advance ps)))
     else ps)"
  by pat_completeness auto
termination
  by (relation "measure remainingTokens") (auto simp: P_advance_progress)

declare synchronizeLoop.simps [simp del]

definition synchronize :: "Parser \<Rightarrow> Parser" where
  "synchronize ps = synchronizeLoop (snd (P_advance ps))"

function skipComments :: "Parser \<Rightarrow> Parser" where
  "skipComments ps =
    (if fst (P_match [COMMENT] ps) then skipComments (snd (P_match [COMMENT] ps))
     else snd (P_match [COMMENT] ps))"
  by pat_completeness auto
termination
  by (relation "measure remainingTokens") (auto simp: P_match_progress simp del: P_match.simps)

declare skipComments.simps [simp del]


lemma okP_bindP_eq:
  assumes "okP ps r" and "\<And>x ps'. r = (Inr x, ps') \<Longrightarrow> steps ps ps' \<Longrightarrow> okP ps' (k x ps')"
  shows "okP ps (bindP r k)"
proof -
  obtain v ps' where a: "r = (v, ps')" by (cases r)
  have st: "steps ps ps'" using assms(1) a by simp
  show ?thesis
  proof (cases v)
    case (Inl e)
    then show ?thesis using a st by (simp add: bindP_def)
  next
    case (Inr x)
    then have "bindP r k = k x ps'" using a by (simp add: bindP_def)
    then show ?thesis using assms(2) [OF _ st, of x] a Inr st okP_weaken by metis
  qed
qed

lemma parametersLoop_ok: "okP ps (parametersLoop ps params)"
proof (induction ps params rule: parametersLoop.induct)
  case outer: (1 ps params)
  show ?case
  proof (subst parametersLoop.simps, intro okP_bindP_eq P_consume_ok parseType_ok, goal_cases)
    case inner: (1 paramName ps1 u ps2 paramType ps3)
    let ?m = "P_match [COMMA] ps3"
    show ?case
    proof (cases "fst ?m")
      case True
      have "okP (snd ?m) (parametersLoop (snd ?m) (params @ [\<lparr>param_name = tok_value paramName,
              param_type = paramType, param_location = tok_location paramName\<rparr>]))"
        using outer.IH [OF inner(1) inner(3) inner(5) refl True] .
      then show ?thesis
        using True okP_weaken [OF P_match_steps] by (simp add: Let_def del: P_match.simps)
    next
      case False
      then show ?thesis using P_match_steps by (simp add: Let_def del: P_match.simps)
    qed
  qed
qed

lemma parseParameters_ok: "okP ps (parseParameters ps)"
  by (simp add: parseParameters_def parametersLoop_ok)

lemma okO_bindO_eq:
  assumes "okO ps r"
    and "\<And>x ps'. r = Some (Inr x, ps') \<Longrightarrow> steps ps ps' \<Longrightarrow> okO ps' (k x ps')"
  shows "okO ps (bindO r k)"
proof (cases r)
  case None
  then show ?thesis by (simp add: bindO_def)
next
  case (Some a)
  obtain v ps' where a: "a = (v, ps')" by (cases a)
  have st: "steps ps ps'" using assms(1) Some a by simp
  show ?thesis
  proof (cases v)
    case (Inl e)
    then show ?thesis using Some a st by (simp add: bindO_def)
  next
    case (Inr x)
    then have "bindO r k = k x ps'" using Some a by (simp add: bindO_def)
    then show ?thesis using assms(2) [OF _ st, of x] Some a Inr st okO_weaken by metis
  qed
qed

lemma bindO_Some_Inr:
  "bindO r k = Some (Inr y, ps2) \<Longrightarrow> \<exists>x ps1. r = Some (Inr x, ps1) \<and> k x ps1 = Some (Inr y, ps2)"
  by (auto simp: bindO_def split: option.splits prod.splits sum.splits)

lemma parseFunction_ok: "okO ps (parseFunction stof n ps)"
  unfolding parseFunction_def
  by (intro okO_bindO parseExpression_ok)
     (simp_all add: P_consume_ok parseType_ok parseParameters_ok)

lemma consume_then_progress:
  assumes "bindO (Some (P_consume ty m ps)) k = Some (Inr f, ps')" and "\<And>x p. okO p (k x p)"
  shows "remainingTokens ps' < remainingTokens ps"
proof -
  from assms(1) obtain t ps1 where
    c: "P_consume ty m ps = (Inr t, ps1)" and k: "k t ps1 = Some (Inr f, ps')"
    by (auto dest!: bindO_Some_Inr)
  have "remainingTokens ps1 < remainingTokens ps" using c by (rule P_consume_progress)
  moreover have "steps ps1 ps'" using assms(2) [of ps1 t] k by simp
  ultimately show ?thesis using steps_remaining by fastforce
qed

lemma parseFunction_progress:
  assumes "parseFunction stof n ps = Some (Inr f, ps')"
  shows "remainingTokens ps' < remainingTokens ps"
  using assms unfolding parseFunction_def
  by (rule consume_then_progress)
     (intro okO_bindO parseExpression_ok;
      simp add: P_consume_ok parseType_ok parseParameters_ok)

lemma error_steps [simp]:
  "tokens (error m ps) = tokens ps" "current (error m ps) = current ps"
  "remainingTokens (error m ps) = remainingTokens ps" "P_isAtEnd (error m ps) = P_isAtEnd ps"
  by (simp_all add: error_def remainingTokens_def P_isAtEnd_def P_peek_def)

lemma synchronizeLoop_remaining: "remainingTokens (synchronizeLoop ps) \<le> remainingTokens ps"
proof (induction ps rule: synchronizeLoop.induct)
  case (1 ps)
  show ?case
  proof (cases "\<not> P_isAtEnd ps \<and> tok_type (P_previous ps) \<noteq> NEWLINE \<and> tok_type (P_peek ps) \<noteq> LET")
    case True
    then have "synchronizeLoop ps = synchronizeLoop (snd (P_advance ps))"
      by (subst synchronizeLoop.simps) simp
    then show ?thesis
      using 1 True P_advance_progress [of ps] by fastforce
  next
    case False
    then have "synchronizeLoop ps = ps" by (subst synchronizeLoop.simps) auto
    then show ?thesis by simp
  qed
qed

lemma synchronizeLoop_atEnd: "P_isAtEnd ps \<Longrightarrow> synchronizeLoop ps = ps"
  by (subst synchronizeLoop.simps) simp

lemma synchronize_remaining: "remainingTokens (synchronize ps) \<le> remainingTokens ps"
  unfolding synchronize_def
  using synchronizeLoop_remaining [of "snd (P_advance ps)"]
    steps_remaining [OF P_advance_steps, of ps] by linarith

lemma synchronize_progress:
  "\<not> P_isAtEnd ps \<Longrightarrow> remainingTokens (synchronize ps) < remainingTokens ps"
  unfolding synchronize_def
  using synchronizeLoop_remaining [of "snd (P_advance ps)"] P_advance_progress [of ps]
  by linarith

lemma synchronize_atEnd: "P_isAtEnd ps \<Longrightarrow> synchronize ps = ps"
  by (simp add: synchronize_def P_advance_def synchronizeLoop_atEnd)

lemma skipComments_remaining: "remainingTokens (skipComments ps) \<le> remainingTokens ps"
proof (induction ps rule: skipComments.induct)
  case (1 ps)
  show ?case
  proof (cases "fst (P_match [COMMENT] ps)")
    case True
    then have "skipComments ps = skipComments (snd (P_match [COMMENT] ps))"
      by (subst skipComments.simps) simp
    then show ?thesis using 1 [OF True] P_match_progress [OF True] by simp
  next
    case False
    then have "skipComments ps = snd (P_match [COMMENT] ps)"
      by (subst skipComments.simps) simp
    then show ?thesis using steps_remaining [OF P_match_steps [of ps "[COMMENT]"]] by simp
  qed
qed

text \<open>\<^verbatim>\<open>Parser::parse\<close>: the loop over the function definitions of the file; a failure is
  caught, recorded and followed by \<^verbatim>\<open>synchronize\<close>.\<close>

function parseLoop ::
  "(string \<Rightarrow> Exception + float32) \<Rightarrow> nat \<Rightarrow> Parser \<Rightarrow> Program \<Rightarrow> (Program \<times> Parser) option"
where
  "parseLoop stof n ps prog =
    (if \<not> P_isAtEnd ps then
       (let ps1 = skipComments ps in
        if P_isAtEnd ps1 then Some (prog, ps1)
        else
          (case parseFunction stof n ps1 of
             None \<Rightarrow> None
           | Some (Inr func, ps2) \<Rightarrow> parseLoop stof n ps2 (prog @ [func])
           | Some (Inl e, ps2) \<Rightarrow> parseLoop stof n (synchronize (error (what e) ps2)) prog))
     else Some (prog, ps))"
  by pat_completeness auto
termination
proof (relation "measure (\<lambda>(stof, n, ps, prog).
          2 * remainingTokens ps + (if P_isAtEnd ps then 0 else 1))", goal_cases)
  case 1
  show ?case by simp
next
  case (2 stof n ps prog ps1 x2 r ps2 e)
  have pf: "parseFunction stof n ps1 = Some (Inl e, ps2)" using 2 by simp
  have le: "remainingTokens ps1 \<le> remainingTokens ps"
    using 2 skipComments_remaining by simp
  have "okO ps1 (parseFunction stof n ps1)" by (rule parseFunction_ok)
  then have le2: "remainingTokens ps2 \<le> remainingTokens ps1"
    using pf by (simp add: steps_remaining)
  let ?pe = "error (what e) ps2"
  show ?case
  proof (cases "P_isAtEnd ps2")
    case True
    then have "synchronize ?pe = ?pe" by (simp add: synchronize_atEnd)
    then show ?thesis using True le le2 2(1) by simp
  next
    case False
    then have "remainingTokens (synchronize ?pe) < remainingTokens ?pe"
      by (intro synchronize_progress) simp
    then show ?thesis using le le2 2(1) by simp
  qed
next
  case (3 stof n ps prog ps1 x2 r ps2 func)
  have pf: "parseFunction stof n ps1 = Some (Inr func, ps2)" using 3 by simp
  have "remainingTokens ps2 < remainingTokens ps1"
    using pf by (rule parseFunction_progress)
  moreover have "remainingTokens ps1 \<le> remainingTokens ps"
    using 3 skipComments_remaining by simp
  ultimately show ?case using 3(1) by simp
qed

declare parseLoop.simps [simp del]

text \<open>A token that cannot continue an expression: no binary operator and no opening
  parenthesis.\<close>

definition endsExpression :: "Token \<Rightarrow> bool" where
  "endsExpression t =
    (tok_type t \<notin> set [PLUS, MINUS, MULTIPLY, DIVIDE, LESS_THAN, GREATER_THAN, LESS_EQUAL,
                         GREATER_EQUAL, EQUAL_EQUAL, NOT_EQUAL, LPAREN])"

lemmas parse_Suc =
  parseExpression_Suc parseConditional_Suc parseComparison_Suc parseComparisonLoop_Suc
  parseAddition_Suc parseAdditionLoop_Suc parseMultiplication_Suc parseMultiplicationLoop_Suc
  parseUnary_Suc parsePrimary_Suc parseCall_Suc parseArguments_Suc

lemmas parse_bodies =
  parseExpression_body_def parseConditional_body_def parseComparison_body_def
  parseComparisonLoop_body_def parseAddition_body_def parseAdditionLoop_body_def
  parseMultiplication_body_def parseMultiplicationLoop_body_def parseUnary_body_def
  parsePrimary_body_def parseCall_body_def parseArguments_body_def

lemmas parser_prims =
  P_check_def P_isAtEnd_def P_peek_def P_previous_def P_advance_def bindO_def Let_def

lemma precedence_add_mul:
  assumes toks: "tokens ps = pre @ [a, tplus, b, tstar, c, t] @ post"
    and cur: "current ps = length pre"
    and ty: "tok_type a = IDENTIFIER" "tok_type tplus = PLUS" "tok_type b = IDENTIFIER"
      "tok_type tstar = MULTIPLY" "tok_type c = IDENTIFIER"
    and t: "endsExpression t"
  shows "parseExpression stof (k + 8) ps =
    Some (Inr (BinaryOp ADD (Identifier (tok_value a) (tok_location a))
                 (BinaryOp MUL (Identifier (tok_value b) (tok_location b))
                    (Identifier (tok_value c) (tok_location c)) (tok_location tstar))
                 (tok_location tplus)),
          ps\<lparr>current := length pre + 5\<rparr>)"
proof -
  have n: "k + 8 = Suc (Suc (Suc (Suc (Suc (Suc (Suc (Suc k)))))))" by simp
  show ?thesis
    unfolding n using t
    by (simp add: parse_Suc parse_bodies parser_prims toks cur ty endsExpression_def nth_append)
qed


lemma precedence_mul_add:
  assumes toks: "tokens ps = pre @ [a, tstar, b, tplus, c, t] @ post"
    and cur: "current ps = length pre"
    and ty: "tok_type a = IDENTIFIER" "tok_type tplus = PLUS" "tok_type b = IDENTIFIER"
      "tok_type tstar = MULTIPLY" "tok_type c = IDENTIFIER"
    and t: "endsExpression t"
  shows "parseExpression stof (k + 8) ps =
    Some (Inr (BinaryOp ADD
                 (BinaryOp MUL (Identifier (tok_value a) (tok_location a))
                    (Identifier (tok_value b) (tok_location b)) (tok_location tstar))
                 (Identifier (tok_value c) (tok_location c))
                 (tok_location tplus)),
          ps\<lparr>current := length pre + 5\<rparr>)"
proof -
  have n: "k + 8 = Suc (Suc (Suc (Suc (Suc (Suc (Suc (Suc k)))))))" by simp
  show ?thesis
    unfolding n using t
    by (simp add: parse_Suc parse_bodies parser_prims toks cur ty endsExpression_def nth_append)
qed

text \<open>The binary operators of the language.\<close>

definition binaryOperators :: "(TokenType \<times> BinaryOpType) list" where
  "binaryOperators =
    [(PLUS, ADD), (MINUS, SUB), (MULTIPLY, MUL), (DIVIDE, DIV),
     (LESS_THAN, Op_LESS_THAN), (GREATER_THAN, Op_GREATER_THAN), (LESS_EQUAL, Op_LESS_EQUAL),
     (GREATER_EQUAL, Op_GREATER_EQUAL), (EQUAL_EQUAL, Op_EQUAL_EQUAL),
     (NOT_EQUAL, Op_NOT_EQUAL)]"

lemma precedence_neg:
  assumes toks: "tokens ps = pre @ [tminus, a, tbin, b, t] @ post"
    and cur: "current ps = length pre"
    and ty: "tok_type tminus = MINUS" "tok_type a = IDENTIFIER" "tok_type b = IDENTIFIER"
    and op: "map_of binaryOperators (tok_type tbin) = Some opType"
    and t: "endsExpression t"
  shows "parseExpression stof (k + 8) ps =
    Some (Inr (BinaryOp opType
                 (UnaryOp NEG (Identifier (tok_value a) (tok_location a)) (tok_location tminus))
                 (Identifier (tok_value b) (tok_location b))
                 (tok_location tbin)),
          ps\<lparr>current := length pre + 4\<rparr>)"
proof -
  have n: "k + 8 = Suc (Suc (Suc (Suc (Suc (Suc (Suc (Suc k)))))))" by simp
  from op consider "tok_type tbin = PLUS" "opType = ADD" | "tok_type tbin = MINUS" "opType = SUB"
    | "tok_type tbin = MULTIPLY" "opType = MUL" | "tok_type tbin = DIVIDE" "opType = DIV"
    | "tok_type tbin = LESS_THAN" "opType = Op_LESS_THAN"
    | "tok_type tbin = GREATER_THAN" "opType = Op_GREATER_THAN"
    | "tok_type tbin = LESS_EQUAL" "opType = Op_LESS_EQUAL"
    | "tok_type tbin = GREATER_EQUAL" "opType = Op_GREATER_EQUAL"
    | "tok_type tbin = EQUAL_EQUAL" "opType = Op_EQUAL_EQUAL"
    | "tok_type tbin = NOT_EQUAL" "opType = Op_NOT_EQUAL"
    by (auto simp: binaryOperators_def split: if_splits)
  then show ?thesis
    unfolding n using t
    by cases
      (simp_all add: parse_Suc parse_bodies parser_prims toks cur ty endsExpression_def
        nth_append comparisonOp_def)
qed

subsection \<open>Operator precedence\<close>

text \<open>C3. Wherever the parser starts an expression at the tokens \<open>a + b * c\<close> (three
  identifiers, followed by a token that cannot continue an expression), the tree is ADD with
  MUL as its right child; at \<open>a * b + c\<close> it is ADD with MUL as its left child; and at
  \<open>- a op b\<close>, for every binary operator \<open>op\<close>, the negation is the left operand of the
  operator: unary minus binds tighter than every binary operator, so \<open>-a * b\<close> is
  \<open>(-a) * b\<close>. This holds for every budget of at least 8 nested calls, whatever stands
  before and after the expression in the token vector.\<close>

theorem parser_precedence:
  assumes cur: "current ps = length pre"
    and ids: "tok_type a = IDENTIFIER" "tok_type b = IDENTIFIER" "tok_type c = IDENTIFIER"
    and ops: "tok_type tplus = PLUS" "tok_type tstar = MULTIPLY" "tok_type tminus = MINUS"
      "map_of binaryOperators (tok_type tbin) = Some opType"
    and t: "endsExpression t"
  shows
    "(tokens ps = pre @ [a, tplus, b, tstar, c, t] @ post \<longrightarrow>
        parseExpression stof (k + 8) ps =
          Some (Inr (BinaryOp ADD (Identifier (tok_value a) (tok_location a))
                       (BinaryOp MUL (Identifier (tok_value b) (tok_location b))
                          (Identifier (tok_value c) (tok_location c)) (tok_location tstar))
                       (tok_location tplus)),
                ps\<lparr>current := length pre + 5\<rparr>))
   \<and> (tokens ps = pre @ [a, tstar, b, tplus, c, t] @ post \<longrightarrow>
        parseExpression stof (k + 8) ps =
          Some (Inr (BinaryOp ADD
                       (BinaryOp MUL (Identifier (tok_value a) (tok_location a))
                          (Identifier (tok_value b) (tok_location b)) (tok_location tstar))
                       (Identifier (tok_value c) (tok_location c))
                       (tok_location tplus)),
                ps\<lparr>current := length pre + 5\<rparr>))
   \<and> (tokens ps = pre @ [tminus, a, tbin, b, t] @ post \<longrightarrow>
        parseExpression stof (k + 8) ps =
          Some (Inr (BinaryOp opType
                       (UnaryOp NEG (Identifier (tok_value a) (tok_location a))
                          (tok_location tminus))
                       (Identifier (tok_value b) (tok_location b))
                       (tok_location tbin)),
                ps\<lparr>current := length pre + 4\<rparr>))"
  using precedence_add_mul [OF _ cur ids(1) ops(1) ids(2) ops(2) ids(3) t, of post stof k]
    precedence_mul_add [OF _ cur ids(1) ops(1) ids(2) ops(2) ids(3) t, of post stof k]
    precedence_neg [OF _ cur ops(3) ids(1) ids(2) ops(4) t, of post stof k]
  by blast

text \<open>Tokens of a one-line source \<open>f\<close> and a parser standing on a token vector, for
  the concrete instances below.\<close>

definition tokenAt :: "TokenType \<Rightarrow> string \<Rightarrow> nat \<Rightarrow> Token" where
  "tokenAt ty v c = mkToken ty v (mkLocation 1 c ''f'')"

definition parserOn :: "Token list \<Rightarrow> nat \<Rightarrow> Parser" where
  "parserOn toks i = \<lparr>tokens = toks, current = i, errors = []\<rparr>"

theorem parser_precedence_witness:
  "parseExpression (\<lambda>s. Inr 0) 8
      (parserOn [tokenAt IDENTIFIER ''a'' 1, tokenAt PLUS ''+'' 3, tokenAt IDENTIFIER ''b'' 5,
                 tokenAt MULTIPLY ''*'' 7, tokenAt IDENTIFIER ''c'' 9, tokenAt EOF_TOKEN [] 10] 0)
    = Some (Inr (BinaryOp ADD (Identifier ''a'' (mkLocation 1 1 ''f''))
                   (BinaryOp MUL (Identifier ''b'' (mkLocation 1 5 ''f''))
                      (Identifier ''c'' (mkLocation 1 9 ''f'')) (mkLocation 1 7 ''f''))
                   (mkLocation 1 3 ''f'')),
            parserOn [tokenAt IDENTIFIER ''a'' 1, tokenAt PLUS ''+'' 3, tokenAt IDENTIFIER ''b'' 5,
                 tokenAt MULTIPLY ''*'' 7, tokenAt IDENTIFIER ''c'' 9, tokenAt EOF_TOKEN [] 10] 5)
   \<and> parseExpression (\<lambda>s. Inr 0) 8
      (parserOn [tokenAt IDENTIFIER ''a'' 1, tokenAt MULTIPLY ''*'' 3, tokenAt IDENTIFIER ''b'' 5,
                 tokenAt PLUS ''+'' 7, tokenAt IDENTIFIER ''c'' 9, tokenAt EOF_TOKEN [] 10] 0)
    = Some (Inr (BinaryOp ADD
                   (BinaryOp MUL (Identifier ''a'' (mkLocation 1 1 ''f''))
                      (Identifier ''b'' (mkLocation 1 5 ''f'')) (mkLocation 1 3 ''f''))
                   (Identifier ''c'' (mkLocation 1 9 ''f''))
                   (mkLocation 1 7 ''f'')),
            parserOn [tokenAt IDENTIFIER ''a'' 1, tokenAt MULTIPLY ''*'' 3, tokenAt IDENTIFIER ''b'' 5,
                 tokenAt PLUS ''+'' 7, tokenAt IDENTIFIER ''c'' 9, tokenAt EOF_TOKEN [] 10] 5)
   \<and> parseExpression (\<lambda>s. Inr 0) 8
      (parserOn [tokenAt MINUS ''-'' 1, tokenAt IDENTIFIER ''a'' 2, tokenAt MULTIPLY ''*'' 4,
                 tokenAt IDENTIFIER ''b'' 6, tokenAt EOF_TOKEN [] 7] 0)
    = Some (Inr (BinaryOp MUL
                   (UnaryOp NEG (Identifier ''a'' (mkLocation 1 2 ''f'')) (mkLocation 1 1 ''f''))
                   (Identifier ''b'' (mkLocation 1 6 ''f''))
                   (mkLocation 1 4 ''f'')),
            parserOn [tokenAt MINUS ''-'' 1, tokenAt IDENTIFIER ''a'' 2, tokenAt MULTIPLY ''*'' 4,
                 tokenAt IDENTIFIER ''b'' 6, tokenAt EOF_TOKEN [] 7] 4)"
proof -
  have e: "endsExpression (tokenAt EOF_TOKEN [] n)" for n
    by (simp add: endsExpression_def tokenAt_def mkToken_def)
  have m: "map_of binaryOperators (tok_type (tokenAt MULTIPLY ''*'' n)) = Some MUL" for n
    by (simp add: binaryOperators_def tokenAt_def mkToken_def)
  have ty: "tok_type (tokenAt ty v n) = ty" for ty v n
    by (simp add: tokenAt_def mkToken_def)
  have cur: "current (parserOn toks 0) = length ([] :: Token list)" for toks
    by (simp add: parserOn_def)
  note A = parser_precedence [where pre = "[]" and post = "[]" and k = 0
      and stof = "\<lambda>s. Inr 0"
      and a = "tokenAt IDENTIFIER ''a'' 1" and tplus = "tokenAt PLUS ''+'' 3"
      and b = "tokenAt IDENTIFIER ''b'' 5" and tstar = "tokenAt MULTIPLY ''*'' 7"
      and c = "tokenAt IDENTIFIER ''c'' 9" and t = "tokenAt EOF_TOKEN [] 10"
      and tminus = "tokenAt MINUS ''-'' 1" and tbin = "tokenAt MULTIPLY ''*'' 7"
      and opType = MUL, OF cur ty ty ty ty ty ty m e]
  note B = parser_precedence [where pre = "[]" and post = "[]" and k = 0
      and stof = "\<lambda>s. Inr 0"
      and a = "tokenAt IDENTIFIER ''a'' 1" and tplus = "tokenAt PLUS ''+'' 7"
      and b = "tokenAt IDENTIFIER ''b'' 5" and tstar = "tokenAt MULTIPLY ''*'' 3"
      and c = "tokenAt IDENTIFIER ''c'' 9" and t = "tokenAt EOF_TOKEN [] 10"
      and tminus = "tokenAt MINUS ''-'' 1" and tbin = "tokenAt MULTIPLY ''*'' 3"
      and opType = MUL, OF cur ty ty ty ty ty ty m e]
  note C = parser_precedence [where pre = "[]" and post = "[]" and k = 0
      and stof = "\<lambda>s. Inr 0"
      and a = "tokenAt IDENTIFIER ''a'' 2" and tplus = "tokenAt PLUS ''+'' 7"
      and b = "tokenAt IDENTIFIER ''b'' 6" and tstar = "tokenAt MULTIPLY ''*'' 4"
      and c = "tokenAt IDENTIFIER ''c'' 9" and t = "tokenAt EOF_TOKEN [] 7"
      and tminus = "tokenAt MINUS ''-'' 1" and tbin = "tokenAt MULTIPLY ''*'' 4"
      and opType = MUL, OF cur ty ty ty ty ty ty m e]
  show ?thesis
    using A [THEN conjunct1] B [THEN conjunct2, THEN conjunct1] C [THEN conjunct2, THEN conjunct2]
    by (simp add: parserOn_def tokenAt_def mkToken_def)
qed

section \<open>The driver (src/main.cpp)\<close>

text \<open>The constructor \<^verbatim>\<open>Parser::Parser(Lexer &lexer)\<close> runs \<^verbatim>\<open>lexer.tokenize()\<close> on the
  lexer it is given, which moves that lexer to the end of its buffer.\<close>

definition newParser :: "Lexer \<Rightarrow> Parser \<times> Lexer" where
  "newParser lx =
    (let (toks, lx1) = tokenize lx in (\<lparr>tokens = toks, current = 0, errors = []\<rparr>, lx1))"

section \<open>The runtime library (runtime/lge_runtime.c)\<close>





























end
